theory Spec2Isabelle
  imports Main
begin

section \<open>The model tree, positions and operations\<close>

text \<open>
  The unit under verification is \<^verbatim>\<open>engine/model/delta/splitdelta.js\<close>: the class
  \<^verbatim>\<open>SplitDelta\<close> and the batch method \<^verbatim>\<open>split\<close>. The classes it imports
  (\<^verbatim>\<open>Element\<close>, \<^verbatim>\<open>Position\<close>, \<^verbatim>\<open>InsertOperation\<close>, \<^verbatim>\<open>MoveOperation\<close>,
  \<^verbatim>\<open>Delta\<close>, \<^verbatim>\<open>Batch\<close>, \<^verbatim>\<open>Document\<close>) live in other files; each
  definition that stands for one of them says so and follows the specification.
\<close>

type_synonym attrs = "(string \<times> string) list"

text \<open>
  Modelled from the spec: the tree storage (\<^verbatim>\<open>element.js\<close>, \<^verbatim>\<open>text.js\<close> are
  not part of the sources). An element is a named node with an attribute mapping and an
  ordered sequence of children. Offsets address the children directly: every child
  occupies one offset, a run of text being the sequence of its characters. The attribute
  mapping is kept as the list of its entries in insertion order.
\<close>

datatype node =
    Element string attrs "node list"
  | Character char attrs

definition offsetSize :: "node \<Rightarrow> nat" where
  "offsetSize n = 1"

text \<open>Modelled from the spec: \<^verbatim>\<open>maxOffset\<close> is the sum of the child sizes.\<close>

fun maxOffset :: "node \<Rightarrow> nat" where
  "maxOffset (Element nm at ch) = sum_list (map offsetSize ch)"
| "maxOffset (Character c at) = 0"

text \<open>
  Modelled from the spec: a position is a root and a path of offsets; its last entry is
  the offset inside the parent, the entries before it lead from the root to the parent.
\<close>

record position =
  root :: string
  path :: "nat list"

text \<open>
  An element object is referred to by the root it hangs in and the path that leads to
  it; the root element itself has the empty path.
\<close>

type_synonym element_ref = "string \<times> nat list"

fun getNodeByPath :: "node \<Rightarrow> nat list \<Rightarrow> node option" where
  "getNodeByPath n [] = Some n"
| "getNodeByPath (Element nm at ch) (i # is) =
     (if i < length ch then getNodeByPath (ch ! i) is else None)"
| "getNodeByPath (Character c at) (i # is) = None"

text \<open>
  Modelled from the spec: the document, a set of named roots and the version counter
  (\<^verbatim>\<open>document.js\<close> is not part of the sources).
\<close>

record document =
  roots :: "string \<rightharpoonup> node"
  version :: nat

definition getElement :: "document \<Rightarrow> element_ref \<Rightarrow> node option" where
  "getElement doc e =
     (case roots doc (fst e) of
        None \<Rightarrow> None
      | Some t \<Rightarrow>
          (case getNodeByPath t (snd e) of
             Some (Element nm at ch) \<Rightarrow> Some (Element nm at ch)
           | _ \<Rightarrow> None))"

text \<open>
  Modelled from the spec: \<^verbatim>\<open>position.parent\<close> resolves the position to its parent
  element and \<^verbatim>\<open>position.offset\<close> is the last entry of the path. A path that
  does not lead to an element has no parent (the source raises there).
\<close>

definition Position_parent :: "document \<Rightarrow> position \<Rightarrow> element_ref option" where
  "Position_parent doc pos =
     (if path pos = [] then None
      else (case getElement doc (root pos, butlast (path pos)) of
              None \<Rightarrow> None
            | Some e \<Rightarrow> Some (root pos, butlast (path pos))))"

definition Position_offset :: "position \<Rightarrow> nat" where
  "Position_offset pos = last (path pos)"

text \<open>
  Modelled from the spec: \<^verbatim>\<open>element.parent\<close> is absent exactly for a root element.
\<close>

definition Element_parent :: "element_ref \<Rightarrow> element_ref option" where
  "Element_parent e = (if snd e = [] then None else Some (fst e, butlast (snd e)))"

definition Position_createFromParentAndOffset :: "element_ref \<Rightarrow> nat \<Rightarrow> position" where
  "Position_createFromParentAndOffset e k = \<lparr>root = fst e, path = snd e @ [k]\<rparr>"

text \<open>
  Modelled from the spec: \<^verbatim>\<open>Position.createAfter(item)\<close> is the position in the
  item's parent right after the item, that is at the item's own offset plus its size
  of one; a root has none.
\<close>

definition Position_createAfter :: "element_ref \<Rightarrow> position option" where
  "Position_createAfter e =
     (case Element_parent e of
        None \<Rightarrow> None
      | Some p \<Rightarrow> Some (Position_createFromParentAndOffset p (last (snd e) + 1)))"

subsection \<open>Operations\<close>

text \<open>
  Modelled from the spec: the operation primitives (\<^verbatim>\<open>operation/*.js\<close> are not part
  of the sources). Every operation carries the document version it expects; a move
  operation is created with \<^verbatim>\<open>isSticky = false\<close>, the other classes have no such
  property until one is assigned (\<open>None\<close>).
\<close>

datatype op_body =
    InsertOperation position "node list"
  | MoveOperation position int position
  | RemoveOperation position int
  | ReinsertOperation position int

record operation =
  body :: op_body
  baseVersion :: nat
  isSticky :: "bool option"

datatype 'a js = Null | Undefined | Value 'a

fun sourcePosition :: "operation \<Rightarrow> position js" where
  "sourcePosition op =
     (case body op of
        MoveOperation s h t \<Rightarrow> Value s
      | _ \<Rightarrow> Undefined)"

datatype error =
    BatchSplitRoot
  | WrongVersion
  | PositionInvalid
  | NotModelled

fun updateChildren :: "(node list \<Rightarrow> node list option) \<Rightarrow> nat list \<Rightarrow> node \<Rightarrow> node option" where
  "updateChildren f [] (Element nm at ch) = map_option (Element nm at) (f ch)"
| "updateChildren f (i # is) (Element nm at ch) =
     (if i < length ch
      then map_option (\<lambda>c. Element nm at (ch[i := c])) (updateChildren f is (ch ! i))
      else None)"
| "updateChildren f p (Character c at) = None"

definition insertAt :: "nat \<Rightarrow> node list \<Rightarrow> node list \<Rightarrow> node list option" where
  "insertAt k ns ch = (if k \<le> length ch then Some (take k ch @ ns @ drop k ch) else None)"

definition removeAt :: "nat \<Rightarrow> nat \<Rightarrow> node list \<Rightarrow> node list option" where
  "removeAt k h ch = (if k + h \<le> length ch then Some (take k ch @ drop (k + h) ch) else None)"

text \<open>
  Modelled from the spec: placing nodes at a position, and taking a range of nodes out
  of the parent of a position (the tree writer is not part of the sources). Both fail on
  a position that the tree does not have.
\<close>

definition insertNodes :: "position \<Rightarrow> node list \<Rightarrow> (string \<rightharpoonup> node) \<Rightarrow> (string \<rightharpoonup> node) option" where
  "insertNodes pos ns rs =
     (if path pos = [] then None
      else (case rs (root pos) of
              None \<Rightarrow> None
            | Some t \<Rightarrow>
                (case updateChildren (insertAt (last (path pos)) ns) (butlast (path pos)) t of
                   None \<Rightarrow> None
                 | Some t' \<Rightarrow> Some (rs(root pos \<mapsto> t')))))"

definition removeNodes :: "position \<Rightarrow> nat \<Rightarrow> (string \<rightharpoonup> node) \<Rightarrow> (node list \<times> (string \<rightharpoonup> node)) option" where
  "removeNodes pos h rs =
     (if path pos = [] then None
      else (case rs (root pos) of
              None \<Rightarrow> None
            | Some t \<Rightarrow>
                (case getNodeByPath t (butlast (path pos)) of
                   Some (Element nm at ch) \<Rightarrow>
                     (case updateChildren (removeAt (last (path pos)) h) (butlast (path pos)) t of
                        None \<Rightarrow> None
                      | Some t' \<Rightarrow> Some (take h (drop (last (path pos)) ch), rs(root pos \<mapsto> t')))
                 | _ \<Rightarrow> None)))"

text \<open>
  Modelled from the spec: the effect of an operation on the tree. An insert places its
  nodes at its position. A move relocates the range of \<open>howMany\<close> offsets that starts at
  the source position to the target position: the nodes are taken out, then placed at the
  target. A remove takes the range out. A reinsert brings removed nodes back from where
  the removal kept them; the specification does not say where that is, so its effect is
  not modelled.
\<close>

fun execute :: "op_body \<Rightarrow> (string \<rightharpoonup> node) \<Rightarrow> error + (string \<rightharpoonup> node)" where
  "execute (InsertOperation pos ns) rs =
     (case insertNodes pos ns rs of None \<Rightarrow> Inl PositionInvalid | Some rs' \<Rightarrow> Inr rs')"
| "execute (MoveOperation s h t) rs =
     (if h < 0 then Inl PositionInvalid
      else (case removeNodes s (nat h) rs of
              None \<Rightarrow> Inl PositionInvalid
            | Some (ns, rs1) \<Rightarrow>
                (case insertNodes t ns rs1 of None \<Rightarrow> Inl PositionInvalid | Some rs2 \<Rightarrow> Inr rs2)))"
| "execute (RemoveOperation s h) rs =
     (if h < 0 then Inl PositionInvalid
      else (case removeNodes s (nat h) rs of
              None \<Rightarrow> Inl PositionInvalid
            | Some (ns, rs1) \<Rightarrow> Inr rs1))"
| "execute (ReinsertOperation s h) rs = Inl NotModelled"

text \<open>
  Modelled from the spec: \<^verbatim>\<open>document.applyOperation(op)\<close> fails if the operation's
  base version is not the current version; otherwise the operation takes effect and the
  version counter is incremented.
\<close>

definition applyOperation :: "operation \<Rightarrow> document \<Rightarrow> error + document" where
  "applyOperation op doc =
     (if baseVersion op \<noteq> version doc then Inl WrongVersion
      else (case execute (body op) (roots doc) of
              Inl e \<Rightarrow> Inl e
            | Inr rs \<Rightarrow> Inr \<lparr>roots = rs, version = version doc + 1\<rparr>))"

section \<open>Deltas\<close>

text \<open>
  Objects are shared by reference in the source: the delta handed to the batch is the
  one that later receives the operations, and \<^verbatim>\<open>getReversed\<close> assigns to a property
  of an operation object. Operation objects therefore live in a store, a list addressed
  by index, and a delta holds references into it.
\<close>

datatype delta_class = SplitDelta | MergeDelta

record delta =
  dclass :: delta_class
  operations :: "nat list"

text \<open>
  The class \<^verbatim>\<open>SplitDelta\<close> (lines 25 to 105 of the source). A delta object knows the
  class it was created with and holds its operations. \<^verbatim>\<open>operations[i] || null\<close> is
  the \<open>i\<close>-th operation if the delta has one and null otherwise; a getter that can return
  null returns an option.
\<close>

definition new_SplitDelta :: delta where
  "new_SplitDelta = \<lparr>dclass = SplitDelta, operations = []\<rparr>"

definition SplitDelta_type :: "delta \<Rightarrow> string" where
  "SplitDelta_type this = ''split''"

definition SplitDelta_cloneOperation :: "delta \<Rightarrow> nat option" where
  "SplitDelta_cloneOperation this =
     (if 0 < length (operations this) then Some (operations this ! 0) else None)"

definition SplitDelta_moveOperation :: "delta \<Rightarrow> nat option" where
  "SplitDelta_moveOperation this =
     (if 1 < length (operations this) then Some (operations this ! 1) else None)"

text \<open>
  \<^verbatim>\<open>this._moveOperation ? this._moveOperation.sourcePosition : null\<close>: an operation
  object is never falsy, so the test is on null alone. The property read yields the source
  position of a move operation and \<^verbatim>\<open>undefined\<close> for an operation that has no such
  property.
\<close>

definition SplitDelta_position :: "operation list \<Rightarrow> delta \<Rightarrow> position js" where
  "SplitDelta_position store this =
     (case SplitDelta_moveOperation this of
        Some m \<Rightarrow> sourcePosition (store ! m)
      | None \<Rightarrow> Null)"

definition SplitDelta_reverseDeltaClass :: "delta \<Rightarrow> delta_class" where
  "SplitDelta_reverseDeltaClass this = MergeDelta"

definition SplitDelta_className :: string where
  "SplitDelta_className = ''engine.model.delta.SplitDelta''"

definition SplitDelta_priority :: nat where
  "SplitDelta_priority = 5"

text \<open>
  Modelled from the spec: \<^verbatim>\<open>Delta.getReversed()\<close> (\<^verbatim>\<open>delta.js\<close> is not part of
  the sources) produces a new delta, of the declared reverse class, whose operations are
  the inverses of this delta's operations in reverse order. The inverse of a single
  operation belongs to the operation classes and is the parameter \<open>opReversed\<close>; each inverse is
  a new operation object. The reversed delta is usable for undo (section 6) and an
  operation is applied only against the version it declares (sections 5 and 6), so the
  operations of the reversed delta declare, in their order, the versions that follow the
  base version of this delta's last operation. A delta without operations has no last
  operation and nothing is assigned.
\<close>

fun addReversed :: "(operation \<Rightarrow> operation) \<Rightarrow> nat list \<Rightarrow> nat list \<times> operation list \<Rightarrow> nat list \<times> operation list" where
  "addReversed opReversed [] acc = acc"
| "addReversed opReversed (r # rs) acc =
     addReversed opReversed rs (fst acc @ [length (snd acc)], snd acc @ [opReversed (snd acc ! r)])"

fun setBaseVersions :: "nat \<Rightarrow> nat list \<Rightarrow> operation list \<Rightarrow> operation list" where
  "setBaseVersions v [] store = store"
| "setBaseVersions v (r # rs) store =
     setBaseVersions (v + 1) rs (store[r := (store ! r)\<lparr>baseVersion := v\<rparr>])"

definition Delta_getReversed :: "(operation \<Rightarrow> operation) \<Rightarrow> delta_class \<Rightarrow> delta \<Rightarrow> operation list \<Rightarrow> delta \<times> operation list" where
  "Delta_getReversed opReversed cls this store =
     (let added = addReversed opReversed (operations this) ([], store);
          reversed = rev (fst added)
      in (\<lparr>dclass = cls, operations = reversed\<rparr>,
          if operations this = [] then snd added
          else setBaseVersions (baseVersion (snd added ! last (operations this)) + 1) reversed (snd added)))"

text \<open>
  The override (lines 45 to 53): the generic reversal, then the assignment
  \<^verbatim>\<open>delta.operations[ 0 ].isSticky = true\<close> to the operation object that the first
  reference of the new delta points to.
\<close>

definition SplitDelta_getReversed :: "(operation \<Rightarrow> operation) \<Rightarrow> delta \<Rightarrow> operation list \<Rightarrow> delta \<times> operation list" where
  "SplitDelta_getReversed opReversed this store =
     (let (delta, store1) = Delta_getReversed opReversed (SplitDelta_reverseDeltaClass this) this store
      in if length (operations delta) > 0
         then (delta, store1[operations delta ! 0 := (store1 ! (operations delta ! 0))\<lparr>isSticky := Some True\<rparr>])
         else (delta, store1))"

text \<open>
  Modelled from the spec: the anchor position of a merge delta (\<^verbatim>\<open>mergedelta.js\<close> is
  not part of the sources). The specification fixes it for a delta with no operations,
  where it is null; what it is otherwise is the parameter \<open>anchor\<close>.
\<close>

definition MergeDelta_position :: "(operation list \<Rightarrow> delta \<Rightarrow> position js) \<Rightarrow> operation list \<Rightarrow> delta \<Rightarrow> position js" where
  "MergeDelta_position anchor store this =
     (if operations this = [] then Null else anchor store this)"

definition Delta_position :: "(operation list \<Rightarrow> delta \<Rightarrow> position js) \<Rightarrow> operation list \<Rightarrow> delta \<Rightarrow> position js" where
  "Delta_position anchor store this =
     (case dclass this of
        SplitDelta \<Rightarrow> SplitDelta_position store this
      | MergeDelta \<Rightarrow> MergeDelta_position anchor store this)"

section \<open>The batch method split\<close>

text \<open>
  The state the method works on: the store of operation objects, the deltas of the batch
  (\<^verbatim>\<open>this.deltas\<close>) and its document (\<^verbatim>\<open>this.document\<close>). An exception does not
  undo what was assigned before it, so the method returns the state along with its
  result.
\<close>

record batch =
  store :: "operation list"
  deltas :: "delta list"
  document :: document

datatype reference = BatchRef | DeltaRef nat

text \<open>
  Modelled from the spec: \<^verbatim>\<open>batch.addDelta\<close> and \<^verbatim>\<open>delta.addOperation\<close> append
  (\<^verbatim>\<open>batch.js\<close> and \<^verbatim>\<open>delta.js\<close> are not part of the sources). The delta is
  addressed by its index in the deltas of the batch.
\<close>

definition addDelta :: "delta \<Rightarrow> batch \<Rightarrow> batch" where
  "addDelta d this = this\<lparr>deltas := deltas this @ [d]\<rparr>"

definition addOperation :: "nat \<Rightarrow> nat \<Rightarrow> batch \<Rightarrow> batch" where
  "addOperation d r this =
     this\<lparr>deltas := (deltas this)[d := (deltas this ! d)\<lparr>operations := operations (deltas this ! d) @ [r]\<rparr>]\<rparr>"

definition newOperation :: "operation \<Rightarrow> batch \<Rightarrow> nat \<times> batch" where
  "newOperation op this = (length (store this), this\<lparr>store := store this @ [op]\<rparr>)"

definition Batch_applyOperation :: "nat \<Rightarrow> batch \<Rightarrow> error + batch" where
  "Batch_applyOperation r this =
     (case applyOperation (store this ! r) (document this) of
        Inl e \<Rightarrow> Inl e
      | Inr doc \<Rightarrow> Inr (this\<lparr>document := doc\<rparr>))"

text \<open>
  The method (lines 117 to 155). \<open>delta\<close> is the reference to the new split delta, its
  index in the deltas of the batch once \<^verbatim>\<open>addDelta\<close> has run. \<open>splitElement\<close> is the
  reference to the parent of the position; its name, attributes and \<^verbatim>\<open>maxOffset\<close> are
  read from the document as it is when the source reads them. \<open>copy\<close> has no children;
  once the insert operation is applied it is the node at the position of that operation,
  which is how \<^verbatim>\<open>Position.createFromParentAndOffset( copy, 0 )\<close> finds its path. The
  move operation is created with \<^verbatim>\<open>isSticky = false\<close> and the assignment sets it.
  Every step that can raise in the source ends the method with the error and the state
  reached so far; \<^verbatim>\<open>return this\<close> is the reference to the batch.
\<close>

definition Batch_split :: "batch \<Rightarrow> position \<Rightarrow> (error + reference) \<times> batch" where
  "Batch_split this pos =
     (let delta = length (deltas this);
          s1 = addDelta new_SplitDelta this
      in case Position_parent (document s1) pos of
           None \<Rightarrow> (Inl PositionInvalid, s1)
         | Some splitElement \<Rightarrow>
             (case Element_parent splitElement of
                None \<Rightarrow> (Inl BatchSplitRoot, s1)
              | Some p \<Rightarrow>
                  (case (getElement (document s1) splitElement, Position_createAfter splitElement) of
                     (Some (Element nm at ch), Some after) \<Rightarrow>
                       (let copy = Element nm at [];
                            (insert, s2) = newOperation
                               \<lparr>body = InsertOperation after [copy],
                                baseVersion = version (document s1), isSticky = None\<rparr> s1;
                            s3 = addOperation delta insert s2
                        in case Batch_applyOperation insert s3 of
                             Inl e \<Rightarrow> (Inl e, s3)
                           | Inr s4 \<Rightarrow>
                               (case getElement (document s4) splitElement of
                                  None \<Rightarrow> (Inl PositionInvalid, s4)
                                | Some e \<Rightarrow>
                                    (let (move, s5) = newOperation
                                           \<lparr>body = MoveOperation pos
                                              (int (maxOffset e) - int (Position_offset pos))
                                              (Position_createFromParentAndOffset (root after, path after) 0),
                                            baseVersion = version (document s4), isSticky = Some False\<rparr> s4;
                                         s6 = s5\<lparr>store := (store s5)[move := (store s5 ! move)\<lparr>isSticky := Some True\<rparr>]\<rparr>;
                                         s7 = addOperation delta move s6
                                     in case Batch_applyOperation move s7 of
                                          Inl e \<Rightarrow> (Inl e, s7)
                                        | Inr s8 \<Rightarrow> (Inr BatchRef, s8))))
                   | _ \<Rightarrow> (Inl PositionInvalid, s1))))"

section \<open>Reversing and replaying operations\<close>

text \<open>
  Modelled from the spec: the inverse of a single operation (\<^verbatim>\<open>operation/*.js\<close> are
  not part of the sources). The inverse of an insert removes what was inserted, the
  inverse of a move is the move back and keeps the stickiness, and removal and
  reinsertion are inverse to each other. The inverse expects the version that follows the
  operation's own; inside a reversed delta the versions are assigned anew.
\<close>

fun operation_getReversed :: "operation \<Rightarrow> operation" where
  "operation_getReversed op =
     (case body op of
        InsertOperation p ns \<Rightarrow>
          \<lparr>body = RemoveOperation p (int (sum_list (map offsetSize ns))),
           baseVersion = baseVersion op + 1, isSticky = None\<rparr>
      | MoveOperation s h t \<Rightarrow>
          \<lparr>body = MoveOperation t h s, baseVersion = baseVersion op + 1, isSticky = isSticky op\<rparr>
      | RemoveOperation s h \<Rightarrow>
          \<lparr>body = ReinsertOperation s h, baseVersion = baseVersion op + 1, isSticky = None\<rparr>
      | ReinsertOperation s h \<Rightarrow>
          \<lparr>body = RemoveOperation s h, baseVersion = baseVersion op + 1, isSticky = None\<rparr>)"

text \<open>
  Applying a delta to a document: \<^verbatim>\<open>document.applyOperation\<close> for each operation of
  the delta, in the order the delta holds them, as the split method does for its own two
  operations. It stops at the first operation that fails, be it on its base version or
  on the tree.
\<close>

fun applyOperations :: "operation list \<Rightarrow> nat list \<Rightarrow> document \<Rightarrow> error + document" where
  "applyOperations st [] doc = Inr doc"
| "applyOperations st (r # rest) doc =
     (case applyOperation (st ! r) doc of
        Inl e \<Rightarrow> Inl e
      | Inr doc' \<Rightarrow> applyOperations st rest doc')"

text \<open>
  The operations of a list with the base versions \<open>v\<close>, \<open>v + 1\<close>, ... in their order.
\<close>

fun renumbered :: "nat \<Rightarrow> operation list \<Rightarrow> operation list" where
  "renumbered v [] = []"
| "renumbered v (op # ops) = op\<lparr>baseVersion := v\<rparr> # renumbered (v + 1) ops"

section \<open>Updating the children of one element\<close>

text \<open>
  An update of the children of the \<open>i\<close>-th child, seen from the parent: it replaces
  that child by the updated one.
\<close>

definition atChild :: "nat \<Rightarrow> (node list \<Rightarrow> node list option) \<Rightarrow> node list \<Rightarrow> node list option" where
  "atChild i f gs =
     (if i < length gs then map_option (\<lambda>c. gs[i := c]) (updateChildren f [] (gs ! i)) else None)"

section \<open>Example data\<close>

text \<open>
  A root that holds one paragraph \<open>p\<close> with an attribute and the three characters
  \<open>a\<close>, \<open>b\<close>, \<open>c\<close>; a batch on a document with this root and no deltas yet; the
  position between \<open>a\<close> and \<open>b\<close>; and a position directly inside the root.
\<close>

definition example_tree :: node where
  "example_tree =
     Element ''$root'' []
       [Element ''p'' [(''align'', ''left'')]
          [Character CHR ''a'' [], Character CHR ''b'' [], Character CHR ''c'' []]]"

definition example_batch :: batch where
  "example_batch =
     \<lparr>store = [], deltas = [], document = \<lparr>roots = [''main'' \<mapsto> example_tree], version = 7\<rparr>\<rparr>"

definition example_position :: position where
  "example_position = \<lparr>root = ''main'', path = [0, 1]\<rparr>"

definition example_root_position :: position where
  "example_root_position = \<lparr>root = ''main'', path = [1]\<rparr>"

text \<open>
  A store with an insert operation and a move operation that is not sticky, a split
  delta that holds both, and a split delta that holds only the first.
\<close>

definition example_store :: "operation list" where
  "example_store =
     [\<lparr>body = InsertOperation \<lparr>root = ''main'', path = [1]\<rparr> [Element ''p'' [] []],
       baseVersion = 0, isSticky = None\<rparr>,
      \<lparr>body = MoveOperation \<lparr>root = ''main'', path = [0, 1]\<rparr> 2 \<lparr>root = ''main'', path = [1, 0]\<rparr>,
       baseVersion = 1, isSticky = Some False\<rparr>]"

definition example_delta :: delta where
  "example_delta = \<lparr>dclass = SplitDelta, operations = [0, 1]\<rparr>"

definition example_one_operation :: delta where
  "example_one_operation = \<lparr>dclass = SplitDelta, operations = [0]\<rparr>"

section \<open>Paths and updates in the tree\<close>

lemma sum_offsetSize: "sum_list (map offsetSize ch) = length ch"
  by (induction ch) (simp_all add: offsetSize_def)

lemma getNodeByPath_append:
  "getNodeByPath t (p @ q) = (case getNodeByPath t p of None \<Rightarrow> None | Some n \<Rightarrow> getNodeByPath n q)"
  by (induction t p rule: getNodeByPath.induct) auto

lemma getNodeByPath_snoc:
  "getNodeByPath t p = Some (Element nm at gs) \<Longrightarrow>
   getNodeByPath t (p @ [i]) = (if i < length gs then Some (gs ! i) else None)"
  by (simp add: getNodeByPath_append)

lemma getNodeByPath_snoc_elim:
  assumes "getNodeByPath t (p @ [i]) = Some e"
  obtains nm at gs where "getNodeByPath t p = Some (Element nm at gs)" "i < length gs" "gs ! i = e"
proof -
  from assms obtain n where n: "getNodeByPath t p = Some n" "getNodeByPath n [i] = Some e"
    by (auto simp: getNodeByPath_append split: option.splits)
  then show ?thesis using that
    by (cases n) (auto split: if_splits)
qed

lemma updateChildren_snoc:
  "updateChildren f (q @ [i]) t = updateChildren (atChild i f) q t"
proof (induction q arbitrary: t)
  case Nil
  show ?case by (cases t) (simp_all add: atChild_def option.map_comp comp_def)
next
  case (Cons j q)
  show ?case by (cases t) (simp_all add: Cons.IH)
qed

lemma updateChildren_at:
  "getNodeByPath t q = Some (Element n a gs) \<Longrightarrow> F gs = Some gs' \<Longrightarrow>
   \<exists>t'. updateChildren F q t = Some t' \<and> getNodeByPath t' q = Some (Element n a gs')"
proof (induction q arbitrary: t)
  case Nil
  then show ?case by simp
next
  case (Cons j q)
  show ?case
  proof (cases t)
    case (Element nm at ch)
    with Cons.prems have j: "j < length ch"
      and g: "getNodeByPath (ch ! j) q = Some (Element n a gs)"
      by (auto split: if_splits)
    from Cons.IH [OF g Cons.prems(2)] obtain t' where
      "updateChildren F q (ch ! j) = Some t'" "getNodeByPath t' q = Some (Element n a gs')"
      by blast
    with Element j show ?thesis by simp
  next
    case (Character c at)
    with Cons.prems show ?thesis by simp
  qed
qed

lemma updateChildren_compose:
  "updateChildren F q t = Some t1 \<Longrightarrow>
   updateChildren G q t1 = updateChildren (\<lambda>gs. case F gs of None \<Rightarrow> None | Some gs' \<Rightarrow> G gs') q t"
proof (induction q arbitrary: t t1)
  case Nil
  then show ?case by (cases t) auto
next
  case (Cons j q)
  then show ?case by (cases t) (auto split: if_splits)
qed

lemma updateChildren_id:
  "getNodeByPath t q = Some (Element n a gs) \<Longrightarrow> F gs = Some gs \<Longrightarrow> updateChildren F q t = Some t"
proof (induction q arbitrary: t)
  case Nil
  then show ?case by simp
next
  case (Cons j q)
  then show ?case by (cases t) (auto split: if_splits)
qed

lemma atChild_here:
  "atChild (length xs) f (xs @ Element nm at ch # ys) = map_option (\<lambda>c. xs @ Element nm at c # ys) (f ch)"
  by (simp add: atChild_def option.map_comp comp_def)

lemma tracks_get:
  assumes "getNodeByPath t q = Some (Element n a gs)"
    and "updateChildren (\<lambda>_. Some gs1) q t = Some t1"
  shows "getNodeByPath t1 q = Some (Element n a gs1)"
  using updateChildren_at [OF assms(1), of "\<lambda>_. Some gs1" gs1] assms(2) by auto

lemma tracks_step:
  assumes "getNodeByPath t q = Some (Element n a gs)"
    and "updateChildren (\<lambda>_. Some gs1) q t = Some t1"
    and "G gs1 = Some gs2"
  shows "\<exists>t2. updateChildren G q t1 = Some t2 \<and> updateChildren (\<lambda>_. Some gs2) q t = Some t2"
proof -
  obtain t2 where t2: "updateChildren (\<lambda>_. Some gs2) q t = Some t2"
    using updateChildren_at [OF assms(1), of "\<lambda>_. Some gs2" gs2] by auto
  have "updateChildren G q t1 = updateChildren (\<lambda>_. G gs1) q t"
    using updateChildren_compose [OF assms(2), of G] by simp
  with t2 assms(3) show ?thesis by simp
qed

lemma tracks_init:
  "getNodeByPath t q = Some (Element n a gs) \<Longrightarrow> updateChildren (\<lambda>_. Some gs) q t = Some t"
  by (rule updateChildren_id) simp_all

lemma insertNodes_parent:
  assumes "getNodeByPath t q = Some (Element n a gs)"
    and "updateChildren (\<lambda>_. Some gs1) q t = Some t1"
    and "rs r = Some t1" and "j \<le> length gs1"
  shows "\<exists>t2. insertNodes \<lparr>root = r, path = q @ [j]\<rparr> ns rs = Some (rs(r \<mapsto> t2))
           \<and> updateChildren (\<lambda>_. Some (take j gs1 @ ns @ drop j gs1)) q t = Some t2"
proof -
  have "insertAt j ns gs1 = Some (take j gs1 @ ns @ drop j gs1)"
    using assms(4) by (simp add: insertAt_def)
  from tracks_step [where G = "insertAt j ns", OF assms(1,2) this] assms(3) show ?thesis
    by (auto simp: insertNodes_def)
qed

lemma removeNodes_parent:
  assumes "getNodeByPath t q = Some (Element n a gs)"
    and "updateChildren (\<lambda>_. Some gs1) q t = Some t1"
    and "rs r = Some t1" and "j + h \<le> length gs1"
  shows "\<exists>t2. removeNodes \<lparr>root = r, path = q @ [j]\<rparr> h rs = Some (take h (drop j gs1), rs(r \<mapsto> t2))
           \<and> updateChildren (\<lambda>_. Some (take j gs1 @ drop (j + h) gs1)) q t = Some t2"
proof -
  have "removeAt j h gs1 = Some (take j gs1 @ drop (j + h) gs1)"
    using assms(4) by (simp add: removeAt_def)
  from tracks_step [where G = "removeAt j h", OF assms(1,2) this] assms(3) tracks_get [OF assms(1,2)] show ?thesis
    by (auto simp: removeNodes_def)
qed

lemma insertNodes_child:
  assumes "getNodeByPath t q = Some (Element n a gs)"
    and "updateChildren (\<lambda>_. Some (xs @ Element nm at ch # ys)) q t = Some t1"
    and "rs r = Some t1" and "j \<le> length ch"
  shows "\<exists>t2. insertNodes \<lparr>root = r, path = q @ [length xs, j]\<rparr> ns rs = Some (rs(r \<mapsto> t2))
           \<and> updateChildren (\<lambda>_. Some (xs @ Element nm at (take j ch @ ns @ drop j ch) # ys)) q t = Some t2"
proof -
  have "atChild (length xs) (insertAt j ns) (xs @ Element nm at ch # ys)
          = Some (xs @ Element nm at (take j ch @ ns @ drop j ch) # ys)"
    using assms(4) by (simp add: atChild_here insertAt_def)
  from tracks_step [where G = "atChild (length xs) (insertAt j ns)", OF assms(1,2) this] assms(3) show ?thesis
    using updateChildren_snoc [of "insertAt j ns" q "length xs"]
    by (auto simp: insertNodes_def butlast_append)
qed

lemma removeNodes_child:
  assumes "getNodeByPath t q = Some (Element n a gs)"
    and "updateChildren (\<lambda>_. Some (xs @ Element nm at ch # ys)) q t = Some t1"
    and "rs r = Some t1" and "j + h \<le> length ch"
  shows "\<exists>t2. removeNodes \<lparr>root = r, path = q @ [length xs, j]\<rparr> h rs = Some (take h (drop j ch), rs(r \<mapsto> t2))
           \<and> updateChildren (\<lambda>_. Some (xs @ Element nm at (take j ch @ drop (j + h) ch) # ys)) q t = Some t2"
proof -
  have "atChild (length xs) (removeAt j h) (xs @ Element nm at ch # ys)
          = Some (xs @ Element nm at (take j ch @ drop (j + h) ch) # ys)"
    using assms(4) by (simp add: atChild_here removeAt_def)
  moreover have "getNodeByPath t1 (q @ [length xs]) = Some (Element nm at ch)"
    using getNodeByPath_snoc [OF tracks_get [OF assms(1,2)], of "length xs"] by simp
  ultimately show ?thesis
    using tracks_step [where G = "atChild (length xs) (removeAt j h)", OF assms(1,2)] assms(3)
      updateChildren_snoc [of "removeAt j h" q "length xs"]
    by (auto simp: removeNodes_def butlast_append)
qed


lemma split_forward:
  fixes this :: batch and pos :: position
  assumes R: "roots (document this) (root pos) = Some t"
    and G: "getNodeByPath t q = Some (Element n a (xs @ Element nm at ch # ys))"
    and P: "path pos = q @ [length xs, k]"
    and K: "k \<le> length ch"
  shows "\<exists>t1 t3.
      updateChildren (\<lambda>_. Some (xs @ Element nm at ch # Element nm at [] # ys)) q t = Some t1 \<and>
      updateChildren (\<lambda>_. Some (xs @ Element nm at (take k ch) # Element nm at (drop k ch) # ys)) q t = Some t3 \<and>
      execute (InsertOperation \<lparr>root = root pos, path = q @ [Suc (length xs)]\<rparr> [Element nm at []])
          (roots (document this)) = Inr ((roots (document this))(root pos \<mapsto> t1)) \<and>
      execute (MoveOperation pos (int (length ch) - int k) \<lparr>root = root pos, path = q @ [Suc (length xs), 0]\<rparr>)
          ((roots (document this))(root pos \<mapsto> t1)) = Inr ((roots (document this))(root pos \<mapsto> t3))"
proof -
  let ?rs = "roots (document this)"
  let ?r = "root pos"
  let ?E = "Element nm at ch"
  let ?copy = "Element nm at []"
  have pos: "pos = \<lparr>root = ?r, path = q @ [length xs, k]\<rparr>"
    using P by simp
  note T0 = tracks_init [OF G]
  from insertNodes_parent [where rs = ?rs and r = ?r and j = "Suc (length xs)" and ns = "[?copy]", OF G T0 R]
  obtain t1 where
    I1: "insertNodes \<lparr>root = ?r, path = q @ [Suc (length xs)]\<rparr> [?copy] ?rs = Some (?rs(?r \<mapsto> t1))"
    and T1: "updateChildren (\<lambda>_. Some (xs @ ?E # ?copy # ys)) q t = Some t1"
    by auto
  have R1: "(?rs(?r \<mapsto> t1)) ?r = Some t1" by simp
  have K': "k + (length ch - k) \<le> length ch" using K by simp
  from removeNodes_child [where rs = "?rs(?r \<mapsto> t1)" and r = ?r, OF G T1 R1 K']
  obtain t2 where
    I2: "removeNodes \<lparr>root = ?r, path = q @ [length xs, k]\<rparr> (length ch - k) (?rs(?r \<mapsto> t1))
           = Some (drop k ch, ?rs(?r \<mapsto> t2))"
    and T2: "updateChildren (\<lambda>_. Some (xs @ Element nm at (take k ch) # ?copy # ys)) q t = Some t2"
    using K by auto
  have T2': "updateChildren (\<lambda>_. Some ((xs @ [Element nm at (take k ch)]) @ ?copy # ys)) q t = Some t2"
    using T2 by simp
  have R2: "(?rs(?r \<mapsto> t2)) ?r = Some t2" by simp
  from insertNodes_child [where rs = "?rs(?r \<mapsto> t2)" and r = ?r and j = 0 and ns = "drop k ch", OF G T2' R2]
  obtain t3 where
    I3: "insertNodes \<lparr>root = ?r, path = q @ [Suc (length xs), 0]\<rparr> (drop k ch) (?rs(?r \<mapsto> t2))
           = Some (?rs(?r \<mapsto> t3))"
    and T3: "updateChildren (\<lambda>_. Some (xs @ Element nm at (take k ch) # Element nm at (drop k ch) # ys)) q t = Some t3"
    by auto
  have M: "execute (MoveOperation pos (int (length ch) - int k) \<lparr>root = ?r, path = q @ [Suc (length xs), 0]\<rparr>)
             (?rs(?r \<mapsto> t1)) = Inr (?rs(?r \<mapsto> t3))"
  proof -
    have "nat (int (length ch) - int k) = length ch - k" by simp
    moreover have "\<not> int (length ch) - int k < 0" using K by simp
    ultimately show ?thesis
      using I2 I3 by (subst pos) (simp del: of_nat_diff)
  qed
  from I1 T1 T3 M show ?thesis by auto
qed


lemma split_backward:
  fixes rs :: "string \<rightharpoonup> node"
  assumes R: "rs r = Some t"
    and G: "getNodeByPath t q = Some (Element n a (xs @ Element nm at ch # ys))"
    and K: "k \<le> length ch"
    and T3: "updateChildren (\<lambda>_. Some (xs @ Element nm at (take k ch) # Element nm at (drop k ch) # ys)) q t = Some t3"
  shows "\<exists>t5.
      execute (MoveOperation \<lparr>root = r, path = q @ [Suc (length xs), 0]\<rparr> (int (length ch) - int k)
                 \<lparr>root = r, path = q @ [length xs, k]\<rparr>) (rs(r \<mapsto> t3)) = Inr (rs(r \<mapsto> t5)) \<and>
      execute (RemoveOperation \<lparr>root = r, path = q @ [Suc (length xs)]\<rparr> 1) (rs(r \<mapsto> t5)) = Inr rs"
proof -
  let ?A = "Element nm at (take k ch)"
  let ?copy = "Element nm at []"
  have T3': "updateChildren (\<lambda>_. Some ((xs @ [?A]) @ Element nm at (drop k ch) # ys)) q t = Some t3"
    using T3 by simp
  have R3: "(rs(r \<mapsto> t3)) r = Some t3" by simp
  have K3: "0 + (length ch - k) \<le> length (drop k ch)" by simp
  from removeNodes_child [where rs = "rs(r \<mapsto> t3)" and r = r, OF G T3' R3 K3]
  obtain t4 where
    I4: "removeNodes \<lparr>root = r, path = q @ [Suc (length xs), 0]\<rparr> (length ch - k) (rs(r \<mapsto> t3))
           = Some (drop k ch, rs(r \<mapsto> t4))"
    and T4: "updateChildren (\<lambda>_. Some (xs @ ?A # ?copy # ys)) q t = Some t4"
    by auto
  have R4: "(rs(r \<mapsto> t4)) r = Some t4" by simp
  have K4: "k \<le> length (take k ch)" using K by simp
  from insertNodes_child [where rs = "rs(r \<mapsto> t4)" and r = r and ns = "drop k ch", OF G T4 R4 K4]
  obtain t5 where
    I5: "insertNodes \<lparr>root = r, path = q @ [length xs, k]\<rparr> (drop k ch) (rs(r \<mapsto> t4)) = Some (rs(r \<mapsto> t5))"
    and T5: "updateChildren (\<lambda>_. Some (xs @ Element nm at ch # ?copy # ys)) q t = Some t5"
    using K by auto
  have R5: "(rs(r \<mapsto> t5)) r = Some t5" by simp
  have K5: "Suc (length xs) + 1 \<le> length (xs @ Element nm at ch # ?copy # ys)" by simp
  from removeNodes_parent [where rs = "rs(r \<mapsto> t5)" and r = r, OF G T5 R5 K5]
  obtain t6 where
    I6: "removeNodes \<lparr>root = r, path = q @ [Suc (length xs)]\<rparr> 1 (rs(r \<mapsto> t5)) = Some ([?copy], rs(r \<mapsto> t6))"
    and T6: "updateChildren (\<lambda>_. Some (xs @ Element nm at ch # ys)) q t = Some t6"
    by auto
  have "t6 = t" using T6 tracks_init [OF G] by simp
  then have "rs(r \<mapsto> t6) = rs" using R by (simp add: map_upd_triv)
  moreover have "nat (int (length ch) - int k) = length ch - k" by simp
  moreover have "\<not> int (length ch) - int k < 0" using K by simp
  ultimately show ?thesis
    using I4 I5 I6 by (intro exI [of _ t5]) (simp del: of_nat_diff)
qed

lemma addReversed_shape:
  "\<exists>new. addReversed f rs (acc, st) = (acc @ [length st ..< length st + length rs], st @ new)
         \<and> length new = length rs"
proof (induction rs arbitrary: acc st)
  case Nil
  show ?case by simp
next
  case (Cons r rs)
  from Cons.IH [of "acc @ [length st]" "st @ [f (st ! r)]"]
  obtain new where
    "addReversed f rs (acc @ [length st], st @ [f (st ! r)])
       = ((acc @ [length st]) @ [length (st @ [f (st ! r)]) ..< length (st @ [f (st ! r)]) + length rs],
          (st @ [f (st ! r)]) @ new)"
    and "length new = length rs"
    by blast
  then show ?case
    by (intro exI [of _ "f (st ! r) # new"]) (simp del: upt_Suc add: upt_conv_Cons)
qed

lemma addReversed_valid:
  "\<forall>r \<in> set rs. r < length st \<Longrightarrow>
   addReversed f rs (acc, st) = (acc @ [length st ..< length st + length rs], st @ map (\<lambda>r. f (st ! r)) rs)"
proof (induction rs arbitrary: acc st)
  case Nil
  show ?case by simp
next
  case (Cons r rs)
  have "\<forall>x \<in> set rs. x < length (st @ [f (st ! r)])" using Cons.prems by auto
  from Cons.IH [OF this, of "acc @ [length st]"] Cons.prems show ?case
    by (simp del: upt_Suc add: upt_conv_Cons nth_append cong: map_cong)
qed


lemma valid_position_shape:
  assumes "Position_parent doc pos = Some e"
    and "Element_parent e = Some p"
    and "getElement doc e = Some (Element nm at ch)"
  obtains t q xs ys n a where
    "roots doc (root pos) = Some t"
    "getNodeByPath t q = Some (Element n a (xs @ Element nm at ch # ys))"
    "path pos = q @ [length xs, Position_offset pos]"
    "e = (root pos, q @ [length xs])" "p = (root pos, q)"
proof -
  from assms(1) have ne: "path pos \<noteq> []" and e: "e = (root pos, butlast (path pos))"
    by (auto simp: Position_parent_def split: if_splits option.splits)
  from assms(2) e have ne2: "butlast (path pos) \<noteq> []" and p: "p = (root pos, butlast (butlast (path pos)))"
    by (auto simp: Element_parent_def split: if_splits)
  define q where "q = butlast (butlast (path pos))"
  define i where "i = last (butlast (path pos))"
  have bl: "butlast (path pos) = q @ [i]"
    using ne2 by (simp add: q_def i_def)
  from assms(3) e obtain t where t: "roots doc (root pos) = Some t"
    and g: "getNodeByPath t (q @ [i]) = Some (Element nm at ch)"
    by (auto simp: getElement_def bl split: option.splits node.splits)
  from g obtain n a gs where gs: "getNodeByPath t q = Some (Element n a gs)" "i < length gs"
    "gs ! i = Element nm at ch"
    by (rule getNodeByPath_snoc_elim)
  have dec: "gs = take i gs @ Element nm at ch # drop (Suc i) gs"
    using gs(2,3) id_take_nth_drop by metis
  have len: "length (take i gs) = i" using gs(2) by simp
  have pth: "path pos = q @ [length (take i gs), Position_offset pos]"
    using ne bl len by (metis Position_offset_def append.assoc append_Cons append_Nil append_butlast_last_id)
  show ?thesis
  proof (rule that [of t q n a "take i gs" "drop (Suc i) gs"])
    show "roots doc (root pos) = Some t" by (rule t)
    show "getNodeByPath t q = Some (Element n a (take i gs @ Element nm at ch # drop (Suc i) gs))"
      using gs(1) dec by simp
    show "path pos = q @ [length (take i gs), Position_offset pos]" by (rule pth)
    show "e = (root pos, q @ [length (take i gs)])" using e bl len by simp
    show "p = (root pos, q)" using p q_def by simp
  qed
qed

lemma Batch_split_ok:
  fixes this :: batch and pos :: position
  assumes R: "roots (document this) (root pos) = Some t"
    and G: "getNodeByPath t q = Some (Element n a (xs @ Element nm at ch # ys))"
    and P: "path pos = q @ [length xs, k]"
    and K: "k \<le> length ch"
  shows "\<exists>t1 t3.
      updateChildren (\<lambda>_. Some (xs @ Element nm at ch # Element nm at [] # ys)) q t = Some t1 \<and>
      updateChildren (\<lambda>_. Some (xs @ Element nm at (take k ch) # Element nm at (drop k ch) # ys)) q t = Some t3 \<and>
      applyOperation
        \<lparr>body = InsertOperation \<lparr>root = root pos, path = q @ [Suc (length xs)]\<rparr> [Element nm at []],
         baseVersion = version (document this), isSticky = None\<rparr> (document this)
        = Inr \<lparr>roots = (roots (document this))(root pos \<mapsto> t1), version = Suc (version (document this))\<rparr> \<and>
      applyOperation
        \<lparr>body = MoveOperation pos (int (length ch) - int k) \<lparr>root = root pos, path = q @ [Suc (length xs), 0]\<rparr>,
         baseVersion = Suc (version (document this)), isSticky = Some True\<rparr>
        \<lparr>roots = (roots (document this))(root pos \<mapsto> t1), version = Suc (version (document this))\<rparr>
        = Inr \<lparr>roots = (roots (document this))(root pos \<mapsto> t3), version = Suc (Suc (version (document this)))\<rparr> \<and>
      Batch_split this pos =
        (Inr BatchRef,
         \<lparr>store = store this @
            [\<lparr>body = InsertOperation \<lparr>root = root pos, path = q @ [Suc (length xs)]\<rparr> [Element nm at []],
              baseVersion = version (document this), isSticky = None\<rparr>,
             \<lparr>body = MoveOperation pos (int (length ch) - int k) \<lparr>root = root pos, path = q @ [Suc (length xs), 0]\<rparr>,
              baseVersion = Suc (version (document this)), isSticky = Some True\<rparr>],
          deltas = deltas this @
            [\<lparr>dclass = SplitDelta, operations = [length (store this), Suc (length (store this))]\<rparr>],
          document = \<lparr>roots = (roots (document this))(root pos \<mapsto> t3),
                      version = Suc (Suc (version (document this)))\<rparr>\<rparr>)"
proof -
  let ?doc = "document this"
  let ?e = "(root pos, q @ [length xs])"
  from split_forward [OF R G P K] obtain t1 t3 where
    T1: "updateChildren (\<lambda>_. Some (xs @ Element nm at ch # Element nm at [] # ys)) q t = Some t1"
    and T3: "updateChildren (\<lambda>_. Some (xs @ Element nm at (take k ch) # Element nm at (drop k ch) # ys)) q t = Some t3"
    and X1: "execute (InsertOperation \<lparr>root = root pos, path = q @ [Suc (length xs)]\<rparr> [Element nm at []])
          (roots ?doc) = Inr ((roots ?doc)(root pos \<mapsto> t1))"
    and X2: "execute (MoveOperation pos (int (length ch) - int k) \<lparr>root = root pos, path = q @ [Suc (length xs), 0]\<rparr>)
          ((roots ?doc)(root pos \<mapsto> t1)) = Inr ((roots ?doc)(root pos \<mapsto> t3))"
    by blast
  have g0: "getNodeByPath t (q @ [length xs]) = Some (Element nm at ch)"
    using getNodeByPath_snoc [OF G, of "length xs"] by simp
  have g1: "getNodeByPath t1 (q @ [length xs]) = Some (Element nm at ch)"
    using getNodeByPath_snoc [OF tracks_get [OF G T1], of "length xs"] by simp
  have E0: "getElement ?doc ?e = Some (Element nm at ch)"
    using R g0 by (simp add: getElement_def)
  have PP: "Position_parent ?doc pos = Some ?e"
    using E0 P by (simp add: Position_parent_def butlast_append)
  have EP: "Element_parent ?e = Some (root pos, q)"
    by (simp add: Element_parent_def)
  have CA: "Position_createAfter ?e = Some \<lparr>root = root pos, path = q @ [Suc (length xs)]\<rparr>"
    by (simp add: Position_createAfter_def EP Position_createFromParentAndOffset_def)
  have A1: "applyOperation
        \<lparr>body = InsertOperation \<lparr>root = root pos, path = q @ [Suc (length xs)]\<rparr> [Element nm at []],
         baseVersion = version ?doc, isSticky = None\<rparr> ?doc
        = Inr \<lparr>roots = (roots ?doc)(root pos \<mapsto> t1), version = Suc (version ?doc)\<rparr>"
    using X1 by (simp add: applyOperation_def)
  have A2: "applyOperation
        \<lparr>body = MoveOperation pos (int (length ch) - int k) \<lparr>root = root pos, path = q @ [Suc (length xs), 0]\<rparr>,
         baseVersion = Suc (version ?doc), isSticky = Some True\<rparr>
        \<lparr>roots = (roots ?doc)(root pos \<mapsto> t1), version = Suc (version ?doc)\<rparr>
        = Inr \<lparr>roots = (roots ?doc)(root pos \<mapsto> t3), version = Suc (Suc (version ?doc))\<rparr>"
    using X2 by (simp add: applyOperation_def)
  have E1: "getElement \<lparr>roots = (roots ?doc)(root pos \<mapsto> t1), version = Suc (version ?doc)\<rparr> ?e
             = Some (Element nm at ch)"
    using g1 by (simp add: getElement_def)
  have off: "Position_offset pos = k" using P by (simp add: Position_offset_def)
  have S: "Batch_split this pos =
        (Inr BatchRef,
         \<lparr>store = store this @
            [\<lparr>body = InsertOperation \<lparr>root = root pos, path = q @ [Suc (length xs)]\<rparr> [Element nm at []],
              baseVersion = version ?doc, isSticky = None\<rparr>,
             \<lparr>body = MoveOperation pos (int (length ch) - int k) \<lparr>root = root pos, path = q @ [Suc (length xs), 0]\<rparr>,
              baseVersion = Suc (version ?doc), isSticky = Some True\<rparr>],
          deltas = deltas this @
            [\<lparr>dclass = SplitDelta, operations = [length (store this), Suc (length (store this))]\<rparr>],
          document = \<lparr>roots = (roots ?doc)(root pos \<mapsto> t3), version = Suc (Suc (version ?doc))\<rparr>\<rparr>)"
    unfolding Batch_split_def
    using PP EP E0 CA A1 A2 E1
    by (simp add: Let_def addDelta_def newOperation_def addOperation_def Batch_applyOperation_def
        new_SplitDelta_def Position_createFromParentAndOffset_def sum_offsetSize off nth_append
        list_update_append
        del: of_nat_diff)
  from T1 T3 A1 A2 S show ?thesis by blast
qed

section \<open>The reversed delta in the store\<close>

lemma length_renumbered: "length (renumbered v ops) = length ops"
  by (induction ops arbitrary: v) simp_all

lemma setBaseVersions_rev_upt:
  "setBaseVersions v (rev [length st ..< length st + length new]) (st @ new @ rest)
     = st @ rev (renumbered v (rev new)) @ rest"
proof (induction new arbitrary: v rest rule: rev_induct)
  case Nil
  show ?case by simp
next
  case (snoc x new)
  have "setBaseVersions v (rev [length st ..< length st + length (new @ [x])]) (st @ (new @ [x]) @ rest)
          = setBaseVersions (v + 1) (rev [length st ..< length st + length new])
              (st @ new @ (x\<lparr>baseVersion := v\<rparr> # rest))"
    by (simp add: list_update_append nth_append)
  also have "\<dots> = st @ rev (renumbered (v + 1) (rev new)) @ (x\<lparr>baseVersion := v\<rparr> # rest)"
    by (rule snoc.IH)
  finally show ?case by simp
qed

lemma Delta_getReversed_shape:
  "\<exists>new. Delta_getReversed f cls this st =
           (\<lparr>dclass = cls, operations = rev [length st ..< length st + length (operations this)]\<rparr>, st @ new)
         \<and> length new = length (operations this)"
proof -
  from addReversed_shape [of f "operations this" "[]" st] obtain new where
    A: "addReversed f (operations this) ([], st)
          = ([length st ..< length st + length (operations this)], st @ new)"
    and L: "length new = length (operations this)"
    by auto
  show ?thesis
  proof (cases "operations this = []")
    case True
    with A L show ?thesis by (simp add: Delta_getReversed_def)
  next
    case False
    let ?v = "baseVersion ((st @ new) ! last (operations this)) + 1"
    have "setBaseVersions ?v (rev [length st ..< length st + length new]) (st @ new @ [])
            = st @ rev (renumbered ?v (rev new)) @ []"
      by (rule setBaseVersions_rev_upt)
    with A L False show ?thesis
      by (intro exI [of _ "rev (renumbered ?v (rev new))"])
         (simp add: Delta_getReversed_def Let_def length_renumbered del: upt_Suc)
  qed
qed

lemma Delta_getReversed_valid:
  assumes "\<forall>r \<in> set (operations this). r < length st" and "operations this \<noteq> []"
  shows "Delta_getReversed f cls this st =
     (\<lparr>dclass = cls, operations = rev [length st ..< length st + length (operations this)]\<rparr>,
      st @ rev (renumbered (baseVersion (st ! last (operations this)) + 1)
                 (rev (map (\<lambda>r. f (st ! r)) (operations this)))))"
proof -
  let ?new = "map (\<lambda>r. f (st ! r)) (operations this)"
  let ?v = "baseVersion (st ! last (operations this)) + 1"
  have A: "addReversed f (operations this) ([], st)
          = ([length st ..< length st + length (operations this)], st @ ?new)"
    using addReversed_valid [OF assms(1), of f "[]"] by simp
  have "last (operations this) < length st"
    using assms by simp
  then have v: "baseVersion ((st @ ?new) ! last (operations this)) + 1 = ?v"
    by (simp add: nth_append)
  have "setBaseVersions ?v (rev [length st ..< length st + length ?new]) (st @ ?new @ [])
            = st @ rev (renumbered ?v (rev ?new)) @ []"
    by (rule setBaseVersions_rev_upt)
  with A v assms(2) show ?thesis
    by (simp add: Delta_getReversed_def Let_def del: upt_Suc)
qed

lemma rev_upt_first: "0 < n \<Longrightarrow> rev [a ..< a + n] ! 0 = a + (n - 1)"
  by (simp add: rev_nth)

lemma map_nth_append_upt:
  "length ys = n \<Longrightarrow> map ((!) (xs @ ys)) [length xs ..< length xs + n] = ys"
  by (rule nth_equalityI) (auto simp: nth_append)

lemma SplitDelta_getReversed_shape:
  assumes "operations this \<noteq> []"
  shows "\<exists>new. Delta_getReversed f MergeDelta this st =
           (\<lparr>dclass = MergeDelta, operations = rev [length st ..< length st + length (operations this)]\<rparr>, st @ new)
         \<and> length new = length (operations this)
         \<and> SplitDelta_getReversed f this st =
           (\<lparr>dclass = MergeDelta, operations = rev [length st ..< length st + length (operations this)]\<rparr>,
            st @ new[length new - 1 := (new ! (length new - 1))\<lparr>isSticky := Some True\<rparr>])"
proof -
  let ?n = "length (operations this)"
  from Delta_getReversed_shape [of f MergeDelta this st] obtain new where
    D: "Delta_getReversed f MergeDelta this st =
           (\<lparr>dclass = MergeDelta, operations = rev [length st ..< length st + ?n]\<rparr>, st @ new)"
    and L: "length new = ?n" by blast
  have n: "0 < ?n" using assms by simp
  have "SplitDelta_getReversed f this st =
           (\<lparr>dclass = MergeDelta, operations = rev [length st ..< length st + ?n]\<rparr>,
            st @ new[length new - 1 := (new ! (length new - 1))\<lparr>isSticky := Some True\<rparr>])"
    using n L D rev_upt_first [OF n, of "length st"]
    by (simp add: SplitDelta_getReversed_def SplitDelta_reverseDeltaClass_def list_update_append nth_append
        del: upt_Suc)
  with D L show ?thesis by blast
qed

text \<open>
  The reversal of a delta that holds an insert and a move, as the split method builds it:
  the move back, sticky, and then the removal of what was inserted, with the two versions
  that follow the base version of the move.
\<close>

lemma reversed_insert_move:
  "SplitDelta_getReversed operation_getReversed
     \<lparr>dclass = SplitDelta, operations = [length st, Suc (length st)]\<rparr>
     (st @ [\<lparr>body = InsertOperation p ns, baseVersion = v, isSticky = k1\<rparr>,
            \<lparr>body = MoveOperation s h t, baseVersion = w, isSticky = k2\<rparr>])
   = (\<lparr>dclass = MergeDelta, operations = [Suc (Suc (Suc (length st))), Suc (Suc (length st))]\<rparr>,
      st @ [\<lparr>body = InsertOperation p ns, baseVersion = v, isSticky = k1\<rparr>,
            \<lparr>body = MoveOperation s h t, baseVersion = w, isSticky = k2\<rparr>,
            \<lparr>body = RemoveOperation p (int (length ns)), baseVersion = Suc (Suc w), isSticky = None\<rparr>,
            \<lparr>body = MoveOperation t h s, baseVersion = Suc w, isSticky = Some True\<rparr>])"
  by (simp add: SplitDelta_getReversed_def Delta_getReversed_def SplitDelta_reverseDeltaClass_def
      Let_def nth_append list_update_append sum_offsetSize)

section \<open>The class SplitDelta\<close>

text \<open>
  C8. For every split delta the declared reverse class is \<^verbatim>\<open>MergeDelta\<close>, the type
  tag is the constant \<^verbatim>\<open>'split'\<close> and the class name is
  \<^verbatim>\<open>'engine.model.delta.SplitDelta'\<close>, whatever operations the delta holds.
\<close>

theorem SplitDelta_constants:
  "SplitDelta_reverseDeltaClass this = MergeDelta \<and> SplitDelta_type this = ''split''
   \<and> SplitDelta_className = ''engine.model.delta.SplitDelta''"
  by (simp add: SplitDelta_reverseDeltaClass_def SplitDelta_type_def SplitDelta_className_def)

text \<open>
  C6, as the code has it. The accessor \<^verbatim>\<open>position\<close> reads the second operation of the
  delta, its move operation: it returns that operation's source position, which for a move
  operation is the position it moves from, and it returns null exactly when the delta
  holds fewer than two operations.
\<close>

theorem SplitDelta_position_second_operation:
  "SplitDelta_position st this =
     (if length (operations this) < 2 then Null else sourcePosition (st ! (operations this ! 1)))
   \<and> ((SplitDelta_position st this = Null) = (length (operations this) < 2))
   \<and> sourcePosition \<lparr>body = MoveOperation s h t, baseVersion = v, isSticky = k\<rparr> = Value s"
  by (auto simp: SplitDelta_position_def SplitDelta_moveOperation_def split: op_body.splits)

text \<open>
  C6 as stated says that null is returned exactly when the delta holds no operations.
  A split delta that holds one operation also reports null.
\<close>

theorem position_null_with_one_operation:
  "SplitDelta_position example_store example_one_operation = Null
   \<and> operations example_one_operation \<noteq> []"
  by (simp add: SplitDelta_position_def SplitDelta_moveOperation_def example_one_operation_def)

text \<open>
  C7. For a split delta with no operations the accessor \<^verbatim>\<open>position\<close> reports null,
  and \<^verbatim>\<open>getReversed\<close> yields a delta of the reverse class that has no operations
  either and leaves the store as it was; the anchor position of that delta is null as
  well. This holds for every inverse of single operations and every store.
\<close>

theorem empty_SplitDelta_reverses_to_empty:
  "SplitDelta_position st \<lparr>dclass = SplitDelta, operations = []\<rparr> = Null
   \<and> SplitDelta_getReversed f \<lparr>dclass = SplitDelta, operations = []\<rparr> st
       = (\<lparr>dclass = MergeDelta, operations = []\<rparr>, st)
   \<and> Delta_position anchor st (fst (SplitDelta_getReversed f \<lparr>dclass = SplitDelta, operations = []\<rparr> st)) = Null"
  by (simp add: SplitDelta_position_def SplitDelta_moveOperation_def SplitDelta_getReversed_def
      Delta_getReversed_def SplitDelta_reverseDeltaClass_def Delta_position_def MergeDelta_position_def)

text \<open>
  C5. For every split delta with at least one operation, \<^verbatim>\<open>getReversed\<close> yields a
  delta whose first operation has \<^verbatim>\<open>isSticky = true\<close>, whatever the flags of the
  original operations are; the result is the generic reversal with the flag of its first
  operation assigned afterwards.
\<close>

theorem getReversed_first_sticky:
  assumes "operations this \<noteq> []"
  shows "(let (delta, st') = SplitDelta_getReversed f this st in
           operations delta \<noteq> [] \<and> operations delta ! 0 < length st'
           \<and> isSticky (st' ! (operations delta ! 0)) = Some True)
       \<and> SplitDelta_getReversed f this st =
           (let (d0, st0) = Delta_getReversed f MergeDelta this st
            in (d0, st0[operations d0 ! 0 := (st0 ! (operations d0 ! 0))\<lparr>isSticky := Some True\<rparr>]))"
proof -
  let ?n = "length (operations this)"
  from SplitDelta_getReversed_shape [OF assms, of f st] obtain new where
    D: "Delta_getReversed f MergeDelta this st =
           (\<lparr>dclass = MergeDelta, operations = rev [length st ..< length st + ?n]\<rparr>, st @ new)"
    and L: "length new = ?n"
    and S: "SplitDelta_getReversed f this st =
           (\<lparr>dclass = MergeDelta, operations = rev [length st ..< length st + ?n]\<rparr>,
            st @ new[length new - 1 := (new ! (length new - 1))\<lparr>isSticky := Some True\<rparr>])"
    by blast
  have n: "0 < ?n" using assms by simp
  show ?thesis
    using n L rev_upt_first [OF n, of "length st"]
    by (simp add: S D nth_append list_update_append del: upt_Suc)
qed

text \<open>
  The example delta holds an insert and a move that is not sticky: the inverse of the
  move is not sticky, the first operation of the reversed delta is.
\<close>

theorem getReversed_first_sticky_witness:
  "operations example_delta \<noteq> []
   \<and> isSticky (operation_getReversed (example_store ! 1)) = Some False
   \<and> (let (delta, st') = SplitDelta_getReversed operation_getReversed example_delta example_store
      in operations delta = [3, 2] \<and> isSticky (st' ! (operations delta ! 0)) = Some True)"
  using getReversed_first_sticky [of example_delta operation_getReversed example_store]
  by (simp add: example_delta_def example_store_def SplitDelta_getReversed_def Delta_getReversed_def
      SplitDelta_reverseDeltaClass_def)

text \<open>
  C10. For every split delta with at least one operation, whose operations are objects
  of the store, \<^verbatim>\<open>getReversed\<close> differs from the generic reversal only in the
  \<^verbatim>\<open>isSticky\<close> flag of the first operation of the reversed delta: the reversed delta
  is the same, its operations are the inverses of the original ones in reverse order
  with the base versions that the generic reversal assigns, bodies and base versions are
  those of the generic reversal, and every operation object that existed before, the
  original delta's own among them, is left as it was.
\<close>

theorem getReversed_changes_only_first_isSticky:
  assumes "operations this \<noteq> []" and "set (operations this) \<subseteq> {..<length st}"
  shows "let (d0, st0) = Delta_getReversed f MergeDelta this st;
             (d1, st1) = SplitDelta_getReversed f this st
         in d1 = d0
          \<and> st1 = st0[operations d0 ! 0 := (st0 ! (operations d0 ! 0))\<lparr>isSticky := Some True\<rparr>]
          \<and> map body st1 = map body st0 \<and> map baseVersion st1 = map baseVersion st0
          \<and> map ((!) st0) (operations d0) =
              renumbered (baseVersion (st ! last (operations this)) + 1)
                (rev (map (\<lambda>r. f (st ! r)) (operations this)))
          \<and> map ((!) st1) (operations d1) =
              (renumbered (baseVersion (st ! last (operations this)) + 1)
                 (rev (map (\<lambda>r. f (st ! r)) (operations this))))
                [0 := (f (st ! last (operations this)))
                        \<lparr>baseVersion := baseVersion (st ! last (operations this)) + 1,
                         isSticky := Some True\<rparr>]
          \<and> take (length st) st1 = st
          \<and> map ((!) st1) (operations this) = map ((!) st) (operations this)"
proof -
  let ?rs = "operations this"
  let ?n = "length ?rs"
  let ?v = "baseVersion (st ! last ?rs) + 1"
  let ?reversed = "renumbered ?v (rev (map (\<lambda>r. f (st ! r)) ?rs))"
  let ?new = "rev ?reversed"
  let ?x = "(f (st ! last ?rs))\<lparr>baseVersion := ?v, isSticky := Some True\<rparr>"
  let ?new' = "?new[?n - 1 := ?x]"
  let ?d = "\<lparr>dclass = MergeDelta, operations = rev [length st ..< length st + ?n]\<rparr>"
  have n: "0 < ?n" using assms(1) by simp
  have valid: "\<forall>r \<in> set ?rs. r < length st" using assms(2) by auto
  have len: "length ?new = ?n" by (simp add: length_renumbered)
  have D: "Delta_getReversed f MergeDelta this st = (?d, st @ ?new)"
    by (rule Delta_getReversed_valid [OF valid assms(1)])
  from SplitDelta_getReversed_shape [OF assms(1), of f st] D
  have S0: "SplitDelta_getReversed f this st =
              (?d, st @ ?new[length ?new - 1 := (?new ! (length ?new - 1))\<lparr>isSticky := Some True\<rparr>])"
    by auto
  have dec: "?rs = butlast ?rs @ [last ?rs]" using assms(1) by simp
  from arg_cong [OF dec, of "map (\<lambda>r. f (st ! r))"]
  have "map (\<lambda>r. f (st ! r)) ?rs
          = map (\<lambda>r. f (st ! r)) (butlast ?rs) @ [f (st ! last ?rs)]"
    by (simp only: map_append list.map)
  then have "rev (map (\<lambda>r. f (st ! r)) ?rs)
          = f (st ! last ?rs) # rev (map (\<lambda>r. f (st ! r)) (butlast ?rs))"
    by (simp only: rev_append rev.simps append.simps)
  then have first_reversed: "?reversed ! 0 = (f (st ! last ?rs))\<lparr>baseVersion := ?v\<rparr>"
    by (simp only: renumbered.simps nth_Cons_0)
  have lastnew: "?new ! (?n - 1) = (f (st ! last ?rs))\<lparr>baseVersion := ?v\<rparr>"
    using n first_reversed by (simp add: rev_nth length_renumbered)
  have S: "SplitDelta_getReversed f this st = (?d, st @ ?new')"
    using S0 lastnew len by simp
  have first: "operations ?d ! 0 = length st + (?n - 1)"
    using rev_upt_first [OF n, of "length st"] by simp
  have at_first: "(st @ ?new) ! (length st + (?n - 1)) = (f (st ! last ?rs))\<lparr>baseVersion := ?v\<rparr>"
    using lastnew by (simp add: nth_append)
  have upd: "st @ ?new' = (st @ ?new)[operations ?d ! 0 := ((st @ ?new) ! (operations ?d ! 0))\<lparr>isSticky := Some True\<rparr>]"
    by (simp only: first at_first) (simp add: list_update_append)
  have same_body: "body ?x = body (?new ! (?n - 1))" and same_version: "baseVersion ?x = baseVersion (?new ! (?n - 1))"
    using lastnew by simp_all
  have bodies: "map body (st @ ?new') = map body (st @ ?new)"
    using n len same_body by (simp add: map_update list_update_same_conv del: rev_rev_ident)
  have versions: "map baseVersion (st @ ?new') = map baseVersion (st @ ?new)"
    using n len same_version by (simp add: map_update list_update_same_conv del: rev_rev_ident)
  have ops: "operations ?d = rev [length st ..< length st + ?n]" by simp
  have A: "map ((!) (st @ ?new)) [length st ..< length st + ?n] = ?new"
    by (rule map_nth_append_upt) (rule len)
  have A': "map ((!) (st @ ?new')) [length st ..< length st + ?n] = ?new'"
    by (rule map_nth_append_upt) (simp add: length_renumbered)
  have gen: "map ((!) (st @ ?new)) (operations ?d) = ?reversed"
    by (simp only: ops rev_map [symmetric] A rev_rev_ident)
  have "map ((!) (st @ ?new')) (operations ?d) = rev ?new'"
    by (simp only: ops rev_map [symmetric] A')
  also have "rev ?new' = ?reversed[0 := ?x]"
    using n len by (simp add: rev_update length_renumbered)
  finally have forced: "map ((!) (st @ ?new')) (operations ?d) = ?reversed[0 := ?x]" .
  have old: "map ((!) (st @ ?new')) ?rs = map ((!) st) ?rs"
    using valid by (simp add: nth_append)
  have tk: "take (length st) (st @ ?new') = st" by simp
  show ?thesis
    unfolding D S Let_def prod.case
    by (intro conjI refl upd bodies versions gen forced tk old)
qed

theorem getReversed_changes_only_first_isSticky_witness:
  "operations example_delta \<noteq> [] \<and> set (operations example_delta) \<subseteq> {..<length example_store}
   \<and> (let (d0, st0) = Delta_getReversed operation_getReversed MergeDelta example_delta example_store;
           (d1, st1) = SplitDelta_getReversed operation_getReversed example_delta example_store
       in d1 = d0 \<and> operations d1 = [3, 2] \<and> take 2 st1 = example_store
          \<and> isSticky (st0 ! 3) = Some False \<and> isSticky (st1 ! 3) = Some True
          \<and> st1 ! 2 = st0 ! 2 \<and> body (st1 ! 3) = body (st0 ! 3))"
  using getReversed_changes_only_first_isSticky [of example_delta example_store operation_getReversed]
  by (simp add: example_delta_def example_store_def SplitDelta_getReversed_def Delta_getReversed_def
      SplitDelta_reverseDeltaClass_def)

section \<open>The split request\<close>

text \<open>
  A position is valid for a split when it resolves to a parent element \<open>e\<close> that has a
  parent \<open>p\<close> of its own and its offset is at most the \<^verbatim>\<open>maxOffset\<close> of \<open>e\<close>. For
  such a position the request runs to its end; the lemma names the two trees in between
  and the state it ends in.
\<close>

lemma Batch_split_valid:
  assumes "Position_parent (document this) pos = Some e"
    and "Element_parent e = Some p"
    and "getElement (document this) e = Some (Element nm at ch)"
    and "Position_offset pos \<le> maxOffset (Element nm at ch)"
  obtains t q xs ys n a t1 t3 where
    "roots (document this) (root pos) = Some t"
    "getNodeByPath t q = Some (Element n a (xs @ Element nm at ch # ys))"
    "path pos = q @ [length xs, Position_offset pos]"
    "e = (root pos, q @ [length xs])" "p = (root pos, q)"
    "updateChildren (\<lambda>_. Some (xs @ Element nm at ch # Element nm at [] # ys)) q t = Some t1"
    "updateChildren (\<lambda>_. Some (xs @ Element nm at (take (Position_offset pos) ch)
        # Element nm at (drop (Position_offset pos) ch) # ys)) q t = Some t3"
    "applyOperation
        \<lparr>body = InsertOperation \<lparr>root = root pos, path = q @ [Suc (length xs)]\<rparr> [Element nm at []],
         baseVersion = version (document this), isSticky = None\<rparr> (document this)
        = Inr \<lparr>roots = (roots (document this))(root pos \<mapsto> t1), version = Suc (version (document this))\<rparr>"
    "applyOperation
        \<lparr>body = MoveOperation pos (int (length ch) - int (Position_offset pos))
                  \<lparr>root = root pos, path = q @ [Suc (length xs), 0]\<rparr>,
         baseVersion = Suc (version (document this)), isSticky = Some True\<rparr>
        \<lparr>roots = (roots (document this))(root pos \<mapsto> t1), version = Suc (version (document this))\<rparr>
        = Inr \<lparr>roots = (roots (document this))(root pos \<mapsto> t3), version = Suc (Suc (version (document this)))\<rparr>"
    "Batch_split this pos =
        (Inr BatchRef,
         \<lparr>store = store this @
            [\<lparr>body = InsertOperation \<lparr>root = root pos, path = q @ [Suc (length xs)]\<rparr> [Element nm at []],
              baseVersion = version (document this), isSticky = None\<rparr>,
             \<lparr>body = MoveOperation pos (int (length ch) - int (Position_offset pos))
                       \<lparr>root = root pos, path = q @ [Suc (length xs), 0]\<rparr>,
              baseVersion = Suc (version (document this)), isSticky = Some True\<rparr>],
          deltas = deltas this @
            [\<lparr>dclass = SplitDelta, operations = [length (store this), Suc (length (store this))]\<rparr>],
          document = \<lparr>roots = (roots (document this))(root pos \<mapsto> t3),
                      version = Suc (Suc (version (document this)))\<rparr>\<rparr>)"
proof -
  from assms(1-3) obtain t q xs ys n a where
    s: "roots (document this) (root pos) = Some t"
      "getNodeByPath t q = Some (Element n a (xs @ Element nm at ch # ys))"
      "path pos = q @ [length xs, Position_offset pos]"
      "e = (root pos, q @ [length xs])" "p = (root pos, q)"
    by (rule valid_position_shape)
  have k: "Position_offset pos \<le> length ch"
    using assms(4) by (simp add: sum_offsetSize)
  from Batch_split_ok [OF s(1,2,3) k] obtain t1 t3 where
    "updateChildren (\<lambda>_. Some (xs @ Element nm at ch # Element nm at [] # ys)) q t = Some t1"
    "updateChildren (\<lambda>_. Some (xs @ Element nm at (take (Position_offset pos) ch)
        # Element nm at (drop (Position_offset pos) ch) # ys)) q t = Some t3"
    "applyOperation
        \<lparr>body = InsertOperation \<lparr>root = root pos, path = q @ [Suc (length xs)]\<rparr> [Element nm at []],
         baseVersion = version (document this), isSticky = None\<rparr> (document this)
        = Inr \<lparr>roots = (roots (document this))(root pos \<mapsto> t1), version = Suc (version (document this))\<rparr>"
    "applyOperation
        \<lparr>body = MoveOperation pos (int (length ch) - int (Position_offset pos))
                  \<lparr>root = root pos, path = q @ [Suc (length xs), 0]\<rparr>,
         baseVersion = Suc (version (document this)), isSticky = Some True\<rparr>
        \<lparr>roots = (roots (document this))(root pos \<mapsto> t1), version = Suc (version (document this))\<rparr>
        = Inr \<lparr>roots = (roots (document this))(root pos \<mapsto> t3), version = Suc (Suc (version (document this)))\<rparr>"
    "Batch_split this pos =
        (Inr BatchRef,
         \<lparr>store = store this @
            [\<lparr>body = InsertOperation \<lparr>root = root pos, path = q @ [Suc (length xs)]\<rparr> [Element nm at []],
              baseVersion = version (document this), isSticky = None\<rparr>,
             \<lparr>body = MoveOperation pos (int (length ch) - int (Position_offset pos))
                       \<lparr>root = root pos, path = q @ [Suc (length xs), 0]\<rparr>,
              baseVersion = Suc (version (document this)), isSticky = Some True\<rparr>],
          deltas = deltas this @
            [\<lparr>dclass = SplitDelta, operations = [length (store this), Suc (length (store this))]\<rparr>],
          document = \<lparr>roots = (roots (document this))(root pos \<mapsto> t3),
                      version = Suc (Suc (version (document this)))\<rparr>\<rparr>)"
    by blast
  with s show ?thesis by (rule that)
qed

text \<open>The request on the example data, evaluated.\<close>

lemma example_valid:
  "Position_parent (document example_batch) example_position = Some (''main'', [0])"
  "Element_parent (''main'', [0]) = Some (''main'', [])"
  "getElement (document example_batch) (''main'', [0]) =
     Some (Element ''p'' [(''align'', ''left'')]
             [Character CHR ''a'' [], Character CHR ''b'' [], Character CHR ''c'' []])"
  "Position_offset example_position
     \<le> maxOffset (Element ''p'' [(''align'', ''left'')]
             [Character CHR ''a'' [], Character CHR ''b'' [], Character CHR ''c'' []])"
  by (simp_all add: Position_parent_def getElement_def Element_parent_def Position_offset_def
      offsetSize_def example_batch_def example_position_def example_tree_def)

lemma example_split:
  "Batch_split example_batch example_position =
     (Inr BatchRef,
      \<lparr>store =
         [\<lparr>body = InsertOperation \<lparr>root = ''main'', path = [1]\<rparr> [Element ''p'' [(''align'', ''left'')] []],
           baseVersion = 7, isSticky = None\<rparr>,
          \<lparr>body = MoveOperation \<lparr>root = ''main'', path = [0, 1]\<rparr> 2 \<lparr>root = ''main'', path = [1, 0]\<rparr>,
           baseVersion = 8, isSticky = Some True\<rparr>],
       deltas = [\<lparr>dclass = SplitDelta, operations = [0, 1]\<rparr>],
       document =
         \<lparr>roots = [''main'' \<mapsto>
            Element ''$root'' []
              [Element ''p'' [(''align'', ''left'')] [Character CHR ''a'' []],
               Element ''p'' [(''align'', ''left'')] [Character CHR ''b'' [], Character CHR ''c'' []]]],
          version = 9\<rparr>\<rparr>)"
  by (simp add: Batch_split_def Let_def addDelta_def new_SplitDelta_def Position_parent_def
      getElement_def Element_parent_def Position_createAfter_def Position_createFromParentAndOffset_def
      newOperation_def addOperation_def Batch_applyOperation_def applyOperation_def
      insertNodes_def removeNodes_def insertAt_def removeAt_def Position_offset_def offsetSize_def
      example_batch_def example_position_def example_tree_def)

lemma example_batch_fields:
  "store example_batch = []" "deltas example_batch = []"
  "version (document example_batch) = 7"
  "roots (document example_batch) = [''main'' \<mapsto> example_tree]"
  by (simp_all add: example_batch_def)

lemma example_position_fields:
  "root example_position = ''main''" "path example_position = [0, 1]"
  "Position_offset example_position = 1"
  by (simp_all add: example_position_def Position_offset_def)

text \<open>
  C2, as the code has it. For every position whose parent element is a root, the split
  request raises \<^verbatim>\<open>batch-split-root\<close>; the document and the store of operations are
  as before, so no operation was created or applied. The empty split delta that the
  method created and handed to the batch before the check stays in the batch.
\<close>

theorem split_root_guard:
  assumes "Position_parent (document this) pos = Some e" and "Element_parent e = None"
  shows "fst (Batch_split this pos) = Inl BatchSplitRoot
       \<and> document (snd (Batch_split this pos)) = document this
       \<and> store (snd (Batch_split this pos)) = store this
       \<and> deltas (snd (Batch_split this pos)) = deltas this @ [\<lparr>dclass = SplitDelta, operations = []\<rparr>]"
  using assms by (simp add: Batch_split_def Let_def addDelta_def new_SplitDelta_def)

theorem split_root_guard_witness:
  "Position_parent (document example_batch) example_root_position = Some (''main'', [])
   \<and> Element_parent (''main'', []) = None
   \<and> fst (Batch_split example_batch example_root_position) = Inl BatchSplitRoot
   \<and> document (snd (Batch_split example_batch example_root_position)) = document example_batch
   \<and> store (snd (Batch_split example_batch example_root_position)) = []"
proof -
  have h1: "Position_parent (document example_batch) example_root_position = Some (''main'', [])"
    by (simp add: Position_parent_def getElement_def example_batch_def example_root_position_def
        example_tree_def)
  have h2: "Element_parent (''main'', []) = None"
    by (simp add: Element_parent_def)
  from split_root_guard [OF h1 h2] h1 h2 show ?thesis
    by (simp add: example_batch_def)
qed

text \<open>
  C2 as stated says that the failed request creates no partial delta. On the example
  the batch holds no delta before the request on the root, and an empty split delta
  after it.
\<close>

theorem split_root_leaves_empty_delta:
  "fst (Batch_split example_batch example_root_position) = Inl BatchSplitRoot
   \<and> deltas example_batch = []
   \<and> deltas (snd (Batch_split example_batch example_root_position))
       = [\<lparr>dclass = SplitDelta, operations = []\<rparr>]
   \<and> deltas (snd (Batch_split example_batch example_root_position)) \<noteq> deltas example_batch"
  by (simp add: Batch_split_def Let_def addDelta_def new_SplitDelta_def Position_parent_def
      getElement_def Element_parent_def example_batch_def example_root_position_def example_tree_def)

text \<open>
  C3. For every split request at a valid position whose parent is not a root, the
  constructed split delta holds exactly two operations in construction order. The first
  is an insert operation that places a new element with the name and the attributes of
  the parent and no children right after the parent: applied to the document, it leaves
  the parent as it was and the new element is its next sibling. The second is a move
  operation from the position, over the offsets from the position's offset up to the
  parent's \<^verbatim>\<open>maxOffset\<close>, to offset 0 of the new element.
\<close>

theorem split_builds_insert_and_move:
  assumes "Position_parent (document this) pos = Some e"
    and "Element_parent e = Some p"
    and "getElement (document this) e = Some (Element nm at ch)"
    and "Position_offset pos \<le> maxOffset (Element nm at ch)"
  shows "let this' = snd (Batch_split this pos);
             i = length (store this); m = Suc (length (store this));
             copy = (fst e, snd p @ [last (snd e) + 1])
         in deltas this' = deltas this @ [\<lparr>dclass = SplitDelta, operations = [i, m]\<rparr>]
          \<and> length (store this') = length (store this) + 2
          \<and> body (store this' ! i) =
               InsertOperation (Position_createFromParentAndOffset p (last (snd e) + 1)) [Element nm at []]
          \<and> Position_createAfter e = Some (Position_createFromParentAndOffset p (last (snd e) + 1))
          \<and> (case applyOperation (store this' ! i) (document this) of
                Inl err \<Rightarrow> False
              | Inr d1 \<Rightarrow> getElement d1 e = Some (Element nm at ch)
                           \<and> getElement d1 copy = Some (Element nm at []))
          \<and> body (store this' ! m) =
               MoveOperation pos (int (maxOffset (Element nm at ch)) - int (Position_offset pos))
                 (Position_createFromParentAndOffset copy 0)"
proof -
  from assms obtain t q xs ys n a t1 t3 where
    R: "roots (document this) (root pos) = Some t"
    and G: "getNodeByPath t q = Some (Element n a (xs @ Element nm at ch # ys))"
    and e: "e = (root pos, q @ [length xs])" and p: "p = (root pos, q)"
    and T1: "updateChildren (\<lambda>_. Some (xs @ Element nm at ch # Element nm at [] # ys)) q t = Some t1"
    and A1: "applyOperation
        \<lparr>body = InsertOperation \<lparr>root = root pos, path = q @ [Suc (length xs)]\<rparr> [Element nm at []],
         baseVersion = version (document this), isSticky = None\<rparr> (document this)
        = Inr \<lparr>roots = (roots (document this))(root pos \<mapsto> t1), version = Suc (version (document this))\<rparr>"
    and S: "Batch_split this pos =
        (Inr BatchRef,
         \<lparr>store = store this @
            [\<lparr>body = InsertOperation \<lparr>root = root pos, path = q @ [Suc (length xs)]\<rparr> [Element nm at []],
              baseVersion = version (document this), isSticky = None\<rparr>,
             \<lparr>body = MoveOperation pos (int (length ch) - int (Position_offset pos))
                       \<lparr>root = root pos, path = q @ [Suc (length xs), 0]\<rparr>,
              baseVersion = Suc (version (document this)), isSticky = Some True\<rparr>],
          deltas = deltas this @
            [\<lparr>dclass = SplitDelta, operations = [length (store this), Suc (length (store this))]\<rparr>],
          document = \<lparr>roots = (roots (document this))(root pos \<mapsto> t3),
                      version = Suc (Suc (version (document this)))\<rparr>\<rparr>)"
    by (rule Batch_split_valid)
  note G1 = tracks_get [OF G T1]
  have g1: "getNodeByPath t1 (q @ [length xs]) = Some (Element nm at ch)"
    using getNodeByPath_snoc [OF G1, of "length xs"] by simp
  have g2: "getNodeByPath t1 (q @ [Suc (length xs)]) = Some (Element nm at [])"
    using getNodeByPath_snoc [OF G1, of "Suc (length xs)"] by (simp add: nth_append)
  show ?thesis
    using g1 g2
    by (simp add: S A1 e p Let_def nth_append Position_createFromParentAndOffset_def
        Position_createAfter_def Element_parent_def getElement_def sum_offsetSize del: of_nat_diff)
qed

theorem split_builds_insert_and_move_witness:
  "Position_parent (document example_batch) example_position = Some (''main'', [0])
   \<and> Element_parent (''main'', [0]) = Some (''main'', [])
   \<and> Position_offset example_position = 1
   \<and> deltas (snd (Batch_split example_batch example_position)) = [\<lparr>dclass = SplitDelta, operations = [0, 1]\<rparr>]
   \<and> body (store (snd (Batch_split example_batch example_position)) ! 0)
       = InsertOperation \<lparr>root = ''main'', path = [1]\<rparr> [Element ''p'' [(''align'', ''left'')] []]
   \<and> body (store (snd (Batch_split example_batch example_position)) ! 1)
       = MoveOperation \<lparr>root = ''main'', path = [0, 1]\<rparr> 2 \<lparr>root = ''main'', path = [1, 0]\<rparr>"
  using split_builds_insert_and_move [OF example_valid] example_valid(1,2)
  by (simp add: example_batch_fields example_position_fields example_split Let_def offsetSize_def
      Position_createFromParentAndOffset_def)

text \<open>
  C4. In the split delta built by a split request at a valid position, the insert
  operation expects the version the document had when the request started, the move
  operation expects the version the document has once the insert was applied, which is
  one more, and the move operation is sticky. Both operations were applied in this order:
  the document the request ends in is the result of applying the insert and then the
  move, two versions later.
\<close>

theorem split_versions_and_application:
  assumes "Position_parent (document this) pos = Some e"
    and "Element_parent e = Some p"
    and "getElement (document this) e = Some (Element nm at ch)"
    and "Position_offset pos \<le> maxOffset (Element nm at ch)"
  shows "let this' = snd (Batch_split this pos);
             insert = store this' ! length (store this);
             move = store this' ! Suc (length (store this))
         in operations (last (deltas this')) = [length (store this), Suc (length (store this))]
          \<and> baseVersion insert = version (document this)
          \<and> isSticky move = Some True
          \<and> (case applyOperation insert (document this) of
                Inl err \<Rightarrow> False
              | Inr d1 \<Rightarrow> version d1 = version (document this) + 1
                           \<and> baseVersion move = version d1
                           \<and> applyOperation move d1 = Inr (document this'))
          \<and> version (document this') = version (document this) + 2"
proof -
  from assms obtain t q xs ys n a t1 t3 where
    R: "roots (document this) (root pos) = Some t"
    and G: "getNodeByPath t q = Some (Element n a (xs @ Element nm at ch # ys))"
    and A1: "applyOperation
        \<lparr>body = InsertOperation \<lparr>root = root pos, path = q @ [Suc (length xs)]\<rparr> [Element nm at []],
         baseVersion = version (document this), isSticky = None\<rparr> (document this)
        = Inr \<lparr>roots = (roots (document this))(root pos \<mapsto> t1), version = Suc (version (document this))\<rparr>"
    and A2: "applyOperation
        \<lparr>body = MoveOperation pos (int (length ch) - int (Position_offset pos))
                  \<lparr>root = root pos, path = q @ [Suc (length xs), 0]\<rparr>,
         baseVersion = Suc (version (document this)), isSticky = Some True\<rparr>
        \<lparr>roots = (roots (document this))(root pos \<mapsto> t1), version = Suc (version (document this))\<rparr>
        = Inr \<lparr>roots = (roots (document this))(root pos \<mapsto> t3), version = Suc (Suc (version (document this)))\<rparr>"
    and S: "Batch_split this pos =
        (Inr BatchRef,
         \<lparr>store = store this @
            [\<lparr>body = InsertOperation \<lparr>root = root pos, path = q @ [Suc (length xs)]\<rparr> [Element nm at []],
              baseVersion = version (document this), isSticky = None\<rparr>,
             \<lparr>body = MoveOperation pos (int (length ch) - int (Position_offset pos))
                       \<lparr>root = root pos, path = q @ [Suc (length xs), 0]\<rparr>,
              baseVersion = Suc (version (document this)), isSticky = Some True\<rparr>],
          deltas = deltas this @
            [\<lparr>dclass = SplitDelta, operations = [length (store this), Suc (length (store this))]\<rparr>],
          document = \<lparr>roots = (roots (document this))(root pos \<mapsto> t3),
                      version = Suc (Suc (version (document this)))\<rparr>\<rparr>)"
    by (rule Batch_split_valid)
  show ?thesis
    by (simp add: S A1 A2 Let_def nth_append del: of_nat_diff)
qed

theorem split_versions_and_application_witness:
  "Position_parent (document example_batch) example_position = Some (''main'', [0])
   \<and> Element_parent (''main'', [0]) = Some (''main'', [])
   \<and> version (document example_batch) = 7
   \<and> baseVersion (store (snd (Batch_split example_batch example_position)) ! 0) = 7
   \<and> baseVersion (store (snd (Batch_split example_batch example_position)) ! 1) = 8
   \<and> isSticky (store (snd (Batch_split example_batch example_position)) ! 1) = Some True
   \<and> version (document (snd (Batch_split example_batch example_position))) = 9"
  using split_versions_and_application [OF example_valid] example_valid(1,2)
  by (simp add: example_batch_fields example_split Let_def split: sum.splits)

text \<open>
  C9, as the code has it. For every valid position whose parent is not a root, the split
  request returns the batch it was called on. The constructed split delta is the last
  delta of that batch; it holds the two new operations and its position is the split
  point.
\<close>

theorem split_returns_batch:
  assumes "Position_parent (document this) pos = Some e"
    and "Element_parent e = Some p"
    and "getElement (document this) e = Some (Element nm at ch)"
    and "Position_offset pos \<le> maxOffset (Element nm at ch)"
  shows "fst (Batch_split this pos) = Inr BatchRef
       \<and> deltas (snd (Batch_split this pos)) =
           deltas this @ [\<lparr>dclass = SplitDelta, operations = [length (store this), Suc (length (store this))]\<rparr>]
       \<and> SplitDelta_position (store (snd (Batch_split this pos))) (last (deltas (snd (Batch_split this pos))))
           = Value pos"
proof -
  from assms obtain st' ds' doc' i m where
    "Batch_split this pos = (Inr BatchRef, \<lparr>store = store this @ [i, m], deltas = ds', document = doc'\<rparr>)"
    "ds' = deltas this @ [\<lparr>dclass = SplitDelta, operations = [length (store this), Suc (length (store this))]\<rparr>]"
    "\<exists>h t. body m = MoveOperation pos h t"
    by (rule Batch_split_valid) simp
  then show ?thesis
    by (auto simp: SplitDelta_position_def SplitDelta_moveOperation_def nth_append)
qed

theorem split_returns_batch_witness:
  "Position_parent (document example_batch) example_position = Some (''main'', [0])
   \<and> Element_parent (''main'', [0]) = Some (''main'', [])
   \<and> fst (Batch_split example_batch example_position) = Inr BatchRef
   \<and> deltas (snd (Batch_split example_batch example_position)) = [\<lparr>dclass = SplitDelta, operations = [0, 1]\<rparr>]
   \<and> SplitDelta_position (store (snd (Batch_split example_batch example_position)))
        (last (deltas (snd (Batch_split example_batch example_position)))) = Value example_position"
  using split_returns_batch [OF example_valid] example_valid(1,2)
  by (simp add: example_batch_fields example_split)

text \<open>
  C9 as stated says that the request returns the constructed split delta. On the
  example the returned reference is the batch, not the delta the request added.
\<close>

theorem split_returns_batch_not_delta:
  "fst (Batch_split example_batch example_position) = Inr BatchRef
   \<and> fst (Batch_split example_batch example_position) \<noteq> Inr (DeltaRef (length (deltas example_batch)))"
  by (simp add: example_split)

text \<open>
  C1. For every element with a parent and every position inside it whose offset is at
  most its \<^verbatim>\<open>maxOffset\<close> (the interior positions of an element with children among
  them), the split request leaves the children before the offset in the element and puts
  the children from the offset on into a new next sibling with the same name and
  attributes. The reversed delta holds the move back and the removal of the new element,
  which declare the version the document has after the split and the one after that.
  Applying them to that document in their order, each with the check of its base version,
  restores every root of the document, so the element has its child sequence, name and
  attributes again; the version counter is four steps past the one before the split.
\<close>

theorem split_then_reversed_restores:
  assumes "Position_parent (document this) pos = Some e"
    and "Element_parent e = Some p"
    and "getElement (document this) e = Some (Element nm at ch)"
    and "Position_offset pos \<le> maxOffset (Element nm at ch)"
  shows "let this' = snd (Batch_split this pos);
             (reversed, st) = SplitDelta_getReversed operation_getReversed (last (deltas this')) (store this')
         in fst (Batch_split this pos) = Inr BatchRef
          \<and> getElement (document this') e = Some (Element nm at (take (Position_offset pos) ch))
          \<and> getElement (document this') (fst e, snd p @ [last (snd e) + 1])
               = Some (Element nm at (drop (Position_offset pos) ch))
          \<and> map (\<lambda>r. baseVersion (st ! r)) (operations reversed)
               = [version (document this'), version (document this') + 1]
          \<and> applyOperations st (operations reversed) (document this')
               = Inr \<lparr>roots = roots (document this), version = version (document this) + 4\<rparr>
          \<and> getElement \<lparr>roots = roots (document this), version = version (document this) + 4\<rparr> e
               = Some (Element nm at ch)"
proof -
  let ?k = "Position_offset pos"
  let ?rs = "roots (document this)"
  let ?v = "version (document this)"
  from assms obtain t q xs ys n a t1 t3 where
    R: "?rs (root pos) = Some t"
    and G: "getNodeByPath t q = Some (Element n a (xs @ Element nm at ch # ys))"
    and P: "path pos = q @ [length xs, ?k]"
    and e: "e = (root pos, q @ [length xs])" and p: "p = (root pos, q)"
    and T3: "updateChildren (\<lambda>_. Some (xs @ Element nm at (take ?k ch) # Element nm at (drop ?k ch) # ys)) q t = Some t3"
    and S: "Batch_split this pos =
        (Inr BatchRef,
         \<lparr>store = store this @
            [\<lparr>body = InsertOperation \<lparr>root = root pos, path = q @ [Suc (length xs)]\<rparr> [Element nm at []],
              baseVersion = ?v, isSticky = None\<rparr>,
             \<lparr>body = MoveOperation pos (int (length ch) - int ?k)
                       \<lparr>root = root pos, path = q @ [Suc (length xs), 0]\<rparr>,
              baseVersion = Suc ?v, isSticky = Some True\<rparr>],
          deltas = deltas this @
            [\<lparr>dclass = SplitDelta, operations = [length (store this), Suc (length (store this))]\<rparr>],
          document = \<lparr>roots = ?rs(root pos \<mapsto> t3), version = Suc (Suc ?v)\<rparr>\<rparr>)"
    by (rule Batch_split_valid)
  have k: "?k \<le> length ch" using assms(4) by (simp add: sum_offsetSize)
  have pos: "pos = \<lparr>root = root pos, path = q @ [length xs, ?k]\<rparr>" using P by simp
  note G3 = tracks_get [OF G T3]
  have g3: "getNodeByPath t3 (q @ [length xs]) = Some (Element nm at (take ?k ch))"
    using getNodeByPath_snoc [OF G3, of "length xs"] by simp
  have g4: "getNodeByPath t3 (q @ [Suc (length xs)]) = Some (Element nm at (drop ?k ch))"
    using getNodeByPath_snoc [OF G3, of "Suc (length xs)"] by (simp add: nth_append)
  have g0: "getNodeByPath t (q @ [length xs]) = Some (Element nm at ch)"
    using getNodeByPath_snoc [OF G, of "length xs"] by simp
  from split_backward [where rs = ?rs and r = "root pos", OF R G k T3] obtain t5 where
    B1: "execute (MoveOperation \<lparr>root = root pos, path = q @ [Suc (length xs), 0]\<rparr> (int (length ch) - int ?k)
                 \<lparr>root = root pos, path = q @ [length xs, ?k]\<rparr>) (?rs(root pos \<mapsto> t3))
           = Inr (?rs(root pos \<mapsto> t5))"
    and B2: "execute (RemoveOperation \<lparr>root = root pos, path = q @ [Suc (length xs)]\<rparr> 1)
             (?rs(root pos \<mapsto> t5)) = Inr ?rs"
    by blast
  have B1': "execute (MoveOperation \<lparr>root = root pos, path = q @ [Suc (length xs), 0]\<rparr> (int (length ch) - int ?k)
                 pos) (?rs(root pos \<mapsto> t3)) = Inr (?rs(root pos \<mapsto> t5))"
    using B1 pos by simp
  have U1: "applyOperation
        \<lparr>body = MoveOperation \<lparr>root = root pos, path = q @ [Suc (length xs), 0]\<rparr>
                  (int (length ch) - int ?k) pos,
         baseVersion = Suc (Suc ?v), isSticky = Some True\<rparr>
        \<lparr>roots = ?rs(root pos \<mapsto> t3), version = Suc (Suc ?v)\<rparr>
        = Inr \<lparr>roots = ?rs(root pos \<mapsto> t5), version = Suc (Suc (Suc ?v))\<rparr>"
    using B1' by (simp add: applyOperation_def)
  have U2: "applyOperation
        \<lparr>body = RemoveOperation \<lparr>root = root pos, path = q @ [Suc (length xs)]\<rparr> 1,
         baseVersion = Suc (Suc (Suc ?v)), isSticky = None\<rparr>
        \<lparr>roots = ?rs(root pos \<mapsto> t5), version = Suc (Suc (Suc ?v))\<rparr>
        = Inr \<lparr>roots = ?rs, version = Suc (Suc (Suc (Suc ?v)))\<rparr>"
    using B2 by (simp add: applyOperation_def)
  let ?ins = "\<lparr>body = InsertOperation \<lparr>root = root pos, path = q @ [Suc (length xs)]\<rparr> [Element nm at []],
              baseVersion = ?v, isSticky = None\<rparr>"
  let ?mv = "\<lparr>body = MoveOperation pos (int (length ch) - int ?k)
                       \<lparr>root = root pos, path = q @ [Suc (length xs), 0]\<rparr>,
              baseVersion = Suc ?v, isSticky = Some True\<rparr>"
  let ?rins = "\<lparr>body = RemoveOperation \<lparr>root = root pos, path = q @ [Suc (length xs)]\<rparr> 1,
         baseVersion = Suc (Suc (Suc ?v)), isSticky = None\<rparr>"
  let ?rmv = "\<lparr>body = MoveOperation \<lparr>root = root pos, path = q @ [Suc (length xs), 0]\<rparr>
                  (int (length ch) - int ?k) pos,
         baseVersion = Suc (Suc ?v), isSticky = Some True\<rparr>"
  let ?st = "store this @ [?ins, ?mv, ?rins, ?rmv]"
  let ?refs = "[Suc (Suc (Suc (length (store this)))), Suc (Suc (length (store this)))]"
  let ?doc' = "\<lparr>roots = ?rs(root pos \<mapsto> t3), version = Suc (Suc ?v)\<rparr>"
  have D: "snd (Batch_split this pos) =
         \<lparr>store = store this @ [?ins, ?mv],
          deltas = deltas this @
            [\<lparr>dclass = SplitDelta, operations = [length (store this), Suc (length (store this))]\<rparr>],
          document = ?doc'\<rparr>"
    by (simp add: S)
  have RV: "SplitDelta_getReversed operation_getReversed
              (last (deltas (snd (Batch_split this pos)))) (store (snd (Batch_split this pos)))
            = (\<lparr>dclass = MergeDelta, operations = ?refs\<rparr>, ?st)"
    using reversed_insert_move [of "store this" "\<lparr>root = root pos, path = q @ [Suc (length xs)]\<rparr>"
        "[Element nm at []]" ?v None pos "int (length ch) - int ?k"
        "\<lparr>root = root pos, path = q @ [Suc (length xs), 0]\<rparr>" "Suc ?v" "Some True"]
    by (simp add: D del: of_nat_diff)
  have n3: "?st ! Suc (Suc (Suc (length (store this)))) = ?rmv"
    and n2: "?st ! Suc (Suc (length (store this))) = ?rins"
    by (simp_all add: nth_append del: of_nat_diff)
  have AP: "applyOperations ?st ?refs ?doc' = Inr \<lparr>roots = ?rs, version = ?v + 4\<rparr>"
    by (simp only: applyOperations.simps n3 n2 U1 U2 sum.case) simp
  have BV: "map (\<lambda>r. baseVersion (?st ! r)) ?refs = [version ?doc', version ?doc' + 1]"
    by (simp only: list.map n3 n2) simp
  have E1: "getElement ?doc' e = Some (Element nm at (take ?k ch))"
    using g3 by (simp add: getElement_def e)
  have E2: "getElement ?doc' (fst e, snd p @ [last (snd e) + 1]) = Some (Element nm at (drop ?k ch))"
    using g4 by (simp add: getElement_def e p)
  have E0: "getElement \<lparr>roots = ?rs, version = ?v + 4\<rparr> e = Some (Element nm at ch)"
    using g0 R by (simp add: getElement_def e)
  have F: "fst (Batch_split this pos) = Inr BatchRef" by (simp add: S)
  have doc: "document (snd (Batch_split this pos)) = ?doc'" by (simp add: D)
  show ?thesis
    unfolding Let_def RV prod.case doc delta.simps
    by (intro conjI F E1 E2 BV AP E0)
qed

text \<open>
  The scenario of the specification: \<open>p\<close> with the children \<open>a\<close>, \<open>b\<close>, \<open>c\<close> split at
  offset 1 gives \<open>p\<close> with \<open>a\<close> followed by \<open>p\<close> with \<open>b\<close>, \<open>c\<close>, at version 9; the
  reversed delta moves the two characters back at version 9 and removes the emptied
  element at version 10, which leaves the tree as it was, at version 11.
\<close>

theorem split_then_reversed_restores_witness:
  "Position_parent (document example_batch) example_position = Some (''main'', [0])
   \<and> Element_parent (''main'', [0]) = Some (''main'', [])
   \<and> Position_offset example_position = 1
   \<and> roots (document (snd (Batch_split example_batch example_position))) ''main''
       = Some (Element ''$root'' []
                [Element ''p'' [(''align'', ''left'')] [Character CHR ''a'' []],
                 Element ''p'' [(''align'', ''left'')] [Character CHR ''b'' [], Character CHR ''c'' []]])
   \<and> version (document (snd (Batch_split example_batch example_position))) = 9
   \<and> (let this' = snd (Batch_split example_batch example_position);
           (reversed, st) = SplitDelta_getReversed operation_getReversed (last (deltas this')) (store this')
       in operations reversed = [3, 2]
        \<and> st ! 3 = \<lparr>body = MoveOperation \<lparr>root = ''main'', path = [1, 0]\<rparr> 2 \<lparr>root = ''main'', path = [0, 1]\<rparr>,
                     baseVersion = 9, isSticky = Some True\<rparr>
        \<and> st ! 2 = \<lparr>body = RemoveOperation \<lparr>root = ''main'', path = [1]\<rparr> 1,
                     baseVersion = 10, isSticky = None\<rparr>
        \<and> applyOperations st (operations reversed) (document this')
            = Inr \<lparr>roots = [''main'' \<mapsto> example_tree], version = 11\<rparr>)"
  using split_then_reversed_restores [OF example_valid] example_valid(1,2)
  by (simp add: example_split example_batch_fields example_position_fields Let_def
      SplitDelta_getReversed_def Delta_getReversed_def SplitDelta_reverseDeltaClass_def offsetSize_def)

end
